theory Spec2Isabelle
  imports Main "HOL-Library.Word"
begin

section \<open>Data model of the boxing subsystem\<close>

text \<open>
  Extents of a device hierarchy are \<^verbatim>\<open>int64_t\<close> values (\<^verbatim>\<open>DimVector\<close>, \<^verbatim>\<open>Shape::At\<close>).
  They are modelled as 64-bit words, so that the multiplication
  \<^verbatim>\<open>reduced_hierarchy.back() *= hierarchy->At(i)\<close> wraps around as the machine's does.
\<close>

type_synonym int64 = "64 word"

text \<open>
  \<^verbatim>\<open>SbpParallel\<close>: the annotation of one hierarchy axis, a protobuf \<^verbatim>\<open>oneof\<close> of
  split (with its axis), broadcast and partial sum. The source compares two of them
  with \<^verbatim>\<open>==\<close>, which is equality of the values.
\<close>

datatype SbpParallel = SplitParallel int64 | BroadcastParallel | PartialSumParallel

text \<open>
  \<^verbatim>\<open>ParallelDistribution\<close> is the repeated field \<^verbatim>\<open>sbp_parallel\<close>: \<^verbatim>\<open>sbp_parallel(i)\<close> reads
  an element, \<^verbatim>\<open>add_sbp_parallel()\<close> appends one.
\<close>

type_synonym ParallelDistribution = "SbpParallel list"

text \<open>
  \<^verbatim>\<open>ParallelConf\<close>: the device names and device tag (the identity of the physical device
  group) and the hierarchy (a \<^verbatim>\<open>ShapeProto\<close>, the list of its dims).
\<close>

record ParallelConf =
  device_name :: "string list"
  device_tag :: string
  hierarchy :: "int64 list"

text \<open>
  Modelled from the spec: the class \<^verbatim>\<open>ParallelDesc\<close>, which is declared elsewhere in the code
  base. The reducer uses three of its operations: the constructor from a \<^verbatim>\<open>ParallelConf\<close>,
  \<^verbatim>\<open>parallel_conf()\<close> and \<^verbatim>\<open>hierarchy()\<close>. The specification's parallel descriptor is a
  device hierarchy with the identity of the physical device group, immutable once
  constructed: a descriptor is the configuration it was constructed from, and
  \<^verbatim>\<open>hierarchy()\<close> is the shape stored in that configuration.
\<close>

datatype ParallelDesc = ParallelDesc (parallel_conf: ParallelConf)

definition desc_hierarchy :: "ParallelDesc \<Rightarrow> int64 list" where
  "desc_hierarchy parallel_desc = hierarchy (parallel_conf parallel_desc)"

definition NumAxes :: "int64 list \<Rightarrow> nat" where
  "NumAxes shape = length shape"

subsection \<open>Failures\<close>

text \<open>
  A call either returns a value to its caller or does not come back: the process ends
  (a failed \<^verbatim>\<open>CHECK_EQ\<close>, a fatal log line) or an exception passes the caller (an
  access out of range). \<open>Aborted\<close> is every outcome of the second kind, with its cause.
\<close>

datatype cause = CheckFailed | OutOfRange | Unimplemented

datatype 'a outcome = Aborted cause | Returned 'a

text \<open>
  Modelled from the spec: \<^verbatim>\<open>Shape::At\<close> and the accessor \<^verbatim>\<open>sbp_parallel(i)\<close> of the repeated
  field, both defined elsewhere, at an index out of range. The specification has a malformed
  descriptor (an empty hierarchy, fewer annotations than axes) fail fast and never truncate
  silently: an access out of range does not return.
\<close>

definition At :: "int64 list \<Rightarrow> nat \<Rightarrow> int64 outcome" where
  "At shape i = (if i < length shape then Returned (shape ! i) else Aborted OutOfRange)"

definition sbp_parallel :: "ParallelDistribution \<Rightarrow> nat \<Rightarrow> SbpParallel outcome" where
  "sbp_parallel parallel_distribution i =
     (if i < length parallel_distribution then Returned (parallel_distribution ! i)
      else Aborted OutOfRange)"

section \<open>The hierarchy reducer\<close>

subsection \<open>ParallelAxesReduce\<close>

text \<open>
  The loop \<^verbatim>\<open>FOR_RANGE(int64_t, i, 1, hierarchy->NumAxes())\<close>. Its state is the pair of
  \<^verbatim>\<open>reduced_hierarchy\<close> and \<^verbatim>\<open>*return_parallel_distribution\<close>. Inside the loop
  \<^verbatim>\<open>hierarchy->At(i)\<close> is in range; \<^verbatim>\<open>sbp_parallel(i)\<close> and \<^verbatim>\<open>sbp_parallel(i - 1)\<close> are in
  range when \<open>i\<close> is below the length of the distribution. \<^verbatim>\<open>back() *= x\<close> multiplies the
  last element in place.
\<close>

function ParallelAxesReduce_loop ::
  "int64 list \<Rightarrow> ParallelDistribution \<Rightarrow> nat \<Rightarrow> int64 list \<times> ParallelDistribution
     \<Rightarrow> (int64 list \<times> ParallelDistribution) outcome" where
  "ParallelAxesReduce_loop hier dist i (reduced_hierarchy, ret_dist) =
     (if i < NumAxes hier then
        (if i < length dist then
           (if dist ! i = dist ! (i - 1) then
              ParallelAxesReduce_loop hier dist (Suc i)
                (butlast reduced_hierarchy @ [last reduced_hierarchy * hier ! i], ret_dist)
            else
              ParallelAxesReduce_loop hier dist (Suc i)
                (reduced_hierarchy @ [hier ! i], ret_dist @ [dist ! i]))
         else Aborted OutOfRange)
      else Returned (reduced_hierarchy, ret_dist))"
  by pat_completeness auto
termination
  by (relation "measure (\<lambda>(hier, dist, i, acc). NumAxes hier - i)") auto

declare ParallelAxesReduce_loop.simps [simp del]

text \<open>
  \<^verbatim>\<open>ParallelAxesReduce\<close>. The out-parameter \<^verbatim>\<open>return_parallel_distribution\<close> is appended to,
  so its content at the call is an argument (\<open>ret_dist0\<close>); \<^verbatim>\<open>return_parallel_desc\<close> is
  overwritten. \<^verbatim>\<open>Shape(reduced_hierarchy).ToProto(...)\<close> stores the dims in the copy of the
  configuration.
\<close>

definition ParallelAxesReduce ::
  "ParallelDesc \<Rightarrow> ParallelDistribution \<Rightarrow> ParallelDistribution
     \<Rightarrow> (ParallelDesc \<times> ParallelDistribution) outcome" where
  "ParallelAxesReduce parallel_desc parallel_distribution ret_dist0 =
     (let hier = desc_hierarchy parallel_desc in
      case At hier 0 of
        Aborted a \<Rightarrow> Aborted a
      | Returned h0 \<Rightarrow>
         (case sbp_parallel parallel_distribution 0 of
            Aborted a \<Rightarrow> Aborted a
          | Returned s0 \<Rightarrow>
             (case ParallelAxesReduce_loop hier parallel_distribution 1 ([h0], ret_dist0 @ [s0]) of
                Aborted a \<Rightarrow> Aborted a
              | Returned (reduced_hierarchy, ret_dist) \<Rightarrow>
                  Returned
                    (ParallelDesc ((parallel_conf parallel_desc)\<lparr>hierarchy := reduced_hierarchy\<rparr>),
                     ret_dist))))"

subsection \<open>CollaborativeParallelAxesReduce\<close>

text \<open>
  The loop of \<^verbatim>\<open>CollaborativeParallelAxesReduce\<close>. Each iteration reads \<^verbatim>\<open>in_hierarchy->At(i)\<close>,
  \<^verbatim>\<open>out_hierarchy->At(i)\<close> and axis \<open>i\<close> of both distributions, in whichever branch it
  takes; an iteration in which one of them is out of range ends the process.
\<close>

function CollaborativeParallelAxesReduce_loop ::
  "int64 list \<Rightarrow> int64 list \<Rightarrow> ParallelDistribution \<Rightarrow> ParallelDistribution \<Rightarrow> nat
     \<Rightarrow> (int64 list \<times> ParallelDistribution) \<times> (int64 list \<times> ParallelDistribution)
     \<Rightarrow> ((int64 list \<times> ParallelDistribution) \<times> (int64 list \<times> ParallelDistribution)) outcome"
  where
  "CollaborativeParallelAxesReduce_loop in_hier out_hier in_dist out_dist i
       ((in_reduced, in_ret), (out_reduced, out_ret)) =
     (if i < NumAxes in_hier then
        (if i < length in_dist \<and> i < length out_dist \<and> i < NumAxes out_hier then
           (if in_dist ! i = in_dist ! (i - 1) \<and> out_dist ! i = out_dist ! (i - 1) then
              CollaborativeParallelAxesReduce_loop in_hier out_hier in_dist out_dist (Suc i)
                ((butlast in_reduced @ [last in_reduced * in_hier ! i], in_ret),
                 (butlast out_reduced @ [last out_reduced * out_hier ! i], out_ret))
            else
              CollaborativeParallelAxesReduce_loop in_hier out_hier in_dist out_dist (Suc i)
                ((in_reduced @ [in_hier ! i], in_ret @ [in_dist ! i]),
                 (out_reduced @ [out_hier ! i], out_ret @ [out_dist ! i])))
         else Aborted OutOfRange)
      else Returned ((in_reduced, in_ret), (out_reduced, out_ret)))"
  by pat_completeness auto
termination
  by (relation "measure (\<lambda>(in_hier, out_hier, in_dist, out_dist, i, acc). NumAxes in_hier - i)")
    auto

declare CollaborativeParallelAxesReduce_loop.simps [simp del]

text \<open>
  \<^verbatim>\<open>CollaborativeParallelAxesReduce\<close>: the \<^verbatim>\<open>CHECK_EQ\<close> on the two ranks comes first, then
  the reads of axis 0 in the order of the source.
\<close>

definition CollaborativeParallelAxesReduce ::
  "ParallelDesc \<Rightarrow> ParallelDesc \<Rightarrow> ParallelDistribution \<Rightarrow> ParallelDistribution
     \<Rightarrow> ParallelDistribution \<Rightarrow> ParallelDistribution
     \<Rightarrow> ((ParallelDesc \<times> ParallelDistribution) \<times> (ParallelDesc \<times> ParallelDistribution)) outcome"
  where
  "CollaborativeParallelAxesReduce in_parallel_desc out_parallel_desc in_parallel_distribution
       out_parallel_distribution in_ret_dist0 out_ret_dist0 =
     (let in_hier = desc_hierarchy in_parallel_desc;
          out_hier = desc_hierarchy out_parallel_desc in
      if NumAxes in_hier \<noteq> NumAxes out_hier then Aborted CheckFailed
      else
        case At in_hier 0 of
          Aborted a \<Rightarrow> Aborted a
        | Returned in_h0 \<Rightarrow>
        (case sbp_parallel in_parallel_distribution 0 of
          Aborted a \<Rightarrow> Aborted a
        | Returned in_s0 \<Rightarrow>
        (case At out_hier 0 of
          Aborted a \<Rightarrow> Aborted a
        | Returned out_h0 \<Rightarrow>
        (case sbp_parallel out_parallel_distribution 0 of
          Aborted a \<Rightarrow> Aborted a
        | Returned out_s0 \<Rightarrow>
        (case CollaborativeParallelAxesReduce_loop in_hier out_hier in_parallel_distribution
                out_parallel_distribution 1
                (([in_h0], in_ret_dist0 @ [in_s0]), ([out_h0], out_ret_dist0 @ [out_s0])) of
          Aborted a \<Rightarrow> Aborted a
        | Returned ((in_reduced, in_ret), (out_reduced, out_ret)) \<Rightarrow>
            Returned
              ((ParallelDesc ((parallel_conf in_parallel_desc)\<lparr>hierarchy := in_reduced\<rparr>), in_ret),
               (ParallelDesc ((parallel_conf out_parallel_desc)\<lparr>hierarchy := out_reduced\<rparr>),
                out_ret)))))))"

subsection \<open>InOutParallelAxesReduce\<close>

text \<open>
  The four out-parameters are overwritten in the first branch and, for the two
  distributions, appended to in the other two; their content at the call is passed on.
\<close>

definition InOutParallelAxesReduce ::
  "ParallelDesc \<Rightarrow> ParallelDesc \<Rightarrow> ParallelDistribution \<Rightarrow> ParallelDistribution
     \<Rightarrow> ParallelDistribution \<Rightarrow> ParallelDistribution
     \<Rightarrow> ((ParallelDesc \<times> ParallelDistribution) \<times> (ParallelDesc \<times> ParallelDistribution)) outcome"
  where
  "InOutParallelAxesReduce in_parallel_desc out_parallel_desc in_parallel_distribution
       out_parallel_distribution in_ret_dist0 out_ret_dist0 =
     (let in_hierarchy_axes = NumAxes (desc_hierarchy in_parallel_desc);
          out_hierarchy_axes = NumAxes (desc_hierarchy out_parallel_desc) in
      if in_hierarchy_axes = 1 \<and> out_hierarchy_axes = 1 then
        Returned ((in_parallel_desc, in_parallel_distribution),
                  (out_parallel_desc, out_parallel_distribution))
      else if in_hierarchy_axes \<noteq> out_hierarchy_axes then
        (case ParallelAxesReduce in_parallel_desc in_parallel_distribution in_ret_dist0 of
           Aborted a \<Rightarrow> Aborted a
         | Returned r_in \<Rightarrow>
            (case ParallelAxesReduce out_parallel_desc out_parallel_distribution out_ret_dist0 of
               Aborted a \<Rightarrow> Aborted a
             | Returned r_out \<Rightarrow> Returned (r_in, r_out)))
      else
        CollaborativeParallelAxesReduce in_parallel_desc out_parallel_desc in_parallel_distribution
          out_parallel_distribution in_ret_dist0 out_ret_dist0)"

section \<open>The hierarchical builder\<close>

subsection \<open>The builder chain assembled by the constructor\<close>

datatype SubTskGphBuilderKind =
    OneToOneSubTskGphBuilder
  | B21SubTskGphBuilder
  | CollectiveBoxingSubTskGphBuilder
  | SliceBoxingSubTskGphBuilder
  | NaiveB2BSubTskGphBuilder
  | NaiveB2PSubTskGphBuilder

datatype ChainSubTskGphBuilder = ChainSubTskGphBuilder (builders: "SubTskGphBuilderKind list")

text \<open>
  \<^verbatim>\<open>Global<ResourceDesc, ForSession>::Get()\<close> is the session's resource description; the
  constructor reads one field of it.
\<close>

record ResourceDesc =
  nccl_use_compute_stream :: bool

text \<open>The builder object holds one member, \<^verbatim>\<open>sub_tsk_gph_builder_\<close>.\<close>

record HierarchicalSubTskGphBuilder =
  sub_tsk_gph_builder_field :: ChainSubTskGphBuilder

text \<open>The constructor: each \<^verbatim>\<open>emplace_back\<close> appends to the local vector \<^verbatim>\<open>builders\<close>.\<close>

definition HierarchicalSubTskGphBuilder_ctor :: "ResourceDesc \<Rightarrow> HierarchicalSubTskGphBuilder" where
  "HierarchicalSubTskGphBuilder_ctor resource_desc =
     (let builders0 = [];
          builders1 = builders0 @ [OneToOneSubTskGphBuilder];
          builders2 = builders1 @ [B21SubTskGphBuilder];
          builders3 = (if \<not> nccl_use_compute_stream resource_desc
                       then builders2 @ [CollectiveBoxingSubTskGphBuilder] else builders2);
          builders4 = builders3 @ [SliceBoxingSubTskGphBuilder];
          builders5 = builders4 @ [NaiveB2BSubTskGphBuilder];
          builders6 = builders5 @ [NaiveB2PSubTskGphBuilder]
      in \<lparr>sub_tsk_gph_builder_field = ChainSubTskGphBuilder builders6\<rparr>)"

subsection \<open>Build\<close>

text \<open>
  \<^verbatim>\<open>Maybe<T>\<close> is an error or a value. \<^verbatim>\<open>Error::BoxingNotSupportedError()\<close> is the one error
  this file creates; the chain may return others.
\<close>

datatype Error = BoxingNotSupportedError | OtherError string

type_synonym 'a Maybe = "Error + 'a"

text \<open>
  The arguments of one call of the chain's \<^verbatim>\<open>Build\<close>. The arguments that
  \<^verbatim>\<open>HierarchicalSubTskGphBuilder::Build\<close> only hands on (\<^verbatim>\<open>ctx\<close>, \<^verbatim>\<open>sorted_in_tasks\<close>,
  \<^verbatim>\<open>sorted_out_tasks\<close>, \<^verbatim>\<open>sorted_ctrl_tasks\<close>, \<^verbatim>\<open>lbi\<close>, \<^verbatim>\<open>logical_blob_desc\<close>, \<^verbatim>\<open>time_shape\<close>)
  are one value of an arbitrary type, \<open>others\<close>.
\<close>

record 'x BuildArgs =
  others :: 'x
  arg_in_parallel_desc :: ParallelDesc
  arg_out_parallel_desc :: ParallelDesc
  arg_in_sbp_parallel :: SbpParallel
  arg_out_sbp_parallel :: SbpParallel

text \<open>
  \<^verbatim>\<open>Build1dParallelHierarchySubTskGph\<close>. \<^verbatim>\<open>ChainSubTskGphBuilder::Build\<close> is defined elsewhere
  and is a parameter, \<open>chain_Build\<close>, which stands for the call as the macro \<^verbatim>\<open>TRY\<close> wraps
  it. The result is the list of calls made to the chain and the outcome of the call.
\<close>

definition Build1dParallelHierarchySubTskGph ::
  "(ChainSubTskGphBuilder \<Rightarrow> 'x BuildArgs \<Rightarrow> 's Maybe outcome) \<Rightarrow> ChainSubTskGphBuilder \<Rightarrow> 'x
     \<Rightarrow> ParallelDesc \<Rightarrow> ParallelDesc \<Rightarrow> ParallelDistribution \<Rightarrow> ParallelDistribution
     \<Rightarrow> 'x BuildArgs list \<times> 's Maybe outcome" where
  "Build1dParallelHierarchySubTskGph chain_Build sub_tsk_gph_builder xs in_parallel_desc
       out_parallel_desc in_parallel_distribution out_parallel_distribution =
     (case sbp_parallel in_parallel_distribution 0 of
        Aborted a \<Rightarrow> ([], Aborted a)
      | Returned in_sbp \<Rightarrow>
         (case sbp_parallel out_parallel_distribution 0 of
            Aborted a \<Rightarrow> ([], Aborted a)
          | Returned out_sbp \<Rightarrow>
             (let args = \<lparr>others = xs, arg_in_parallel_desc = in_parallel_desc,
                           arg_out_parallel_desc = out_parallel_desc,
                           arg_in_sbp_parallel = in_sbp, arg_out_sbp_parallel = out_sbp\<rparr>
              in ([args], chain_Build sub_tsk_gph_builder args))))"

text \<open>
  \<^verbatim>\<open>HierarchicalSubTskGphBuilder::Build\<close>. The two reduced distributions start empty. The macro
  \<^verbatim>\<open>UNIMPLEMENTED()\<close> is defined elsewhere in the code base; what it does is a parameter:
  \<open>Some c\<close> when control does not come back from it (cause \<open>c\<close>), \<open>None\<close> when control goes on
  to the statement after it, \<^verbatim>\<open>return Error::BoxingNotSupportedError()\<close>.
\<close>

definition Build ::
  "cause option \<Rightarrow> (ChainSubTskGphBuilder \<Rightarrow> 'x BuildArgs \<Rightarrow> 's Maybe outcome)
     \<Rightarrow> HierarchicalSubTskGphBuilder \<Rightarrow> 'x
     \<Rightarrow> ParallelDesc \<Rightarrow> ParallelDesc \<Rightarrow> ParallelDistribution \<Rightarrow> ParallelDistribution
     \<Rightarrow> 'x BuildArgs list \<times> 's Maybe outcome" where
  "Build UNIMPLEMENTED chain_Build self xs in_parallel_desc out_parallel_desc
       in_parallel_distribution out_parallel_distribution =
     (case InOutParallelAxesReduce in_parallel_desc out_parallel_desc in_parallel_distribution
             out_parallel_distribution [] [] of
        Aborted a \<Rightarrow> ([], Aborted a)
      | Returned ((reduced_in_parallel_desc, reduced_in_parallel_distribution),
                  (reduced_out_parallel_desc, reduced_out_parallel_distribution)) \<Rightarrow>
          if NumAxes (desc_hierarchy reduced_in_parallel_desc) = 1
             \<and> NumAxes (desc_hierarchy reduced_out_parallel_desc) = 1
          then
            Build1dParallelHierarchySubTskGph chain_Build (sub_tsk_gph_builder_field self) xs
              in_parallel_desc out_parallel_desc
              reduced_in_parallel_distribution reduced_out_parallel_distribution
          else
            (case UNIMPLEMENTED of
               Some c \<Rightarrow> ([], Aborted c)
             | None \<Rightarrow> ([], Returned (Inl BoxingNotSupportedError))))"

section \<open>The actor\<close>

text \<open>
  A kernel (declared elsewhere in the code base) offers the two entry points \<^verbatim>\<open>Forward\<close> and
  \<^verbatim>\<open>Backward\<close>, each taking the function from a blob name in the op to a blob pointer, and
  \<^verbatim>\<open>GetLbnFromBnInOp\<close>. What an entry point does to the registers is arbitrary: it is a
  function on a state of any type \<open>'st\<close> that may fail. \<open>'p\<close> is the type of blob pointers.
\<close>

record ('p, 'st) Kernel =
  Forward :: "(string \<Rightarrow> 'p outcome) \<Rightarrow> 'st \<Rightarrow> 'st outcome"
  Backward :: "(string \<Rightarrow> 'p outcome) \<Rightarrow> 'st \<Rightarrow> 'st outcome"
  GetLbnFromBnInOp :: "string \<Rightarrow> string"

record 'p Regst =
  GetBlobPtrFromLbn :: "string \<Rightarrow> 'p"

record ExecNodeProto =
  op_name :: string
  node_bn_in_op2regst_desc_id :: "string \<rightharpoonup> 64 word"

record TaskProto =
  task_id :: "64 word"
  is_forward :: bool
  exec_sequence :: "ExecNodeProto list"

record ('p, 'st) ExecKernel =
  kernel :: "('p, 'st) Kernel"
  bn_in_op2regst_desc_id :: "string \<rightharpoonup> 64 word"

text \<open>
  The members \<^verbatim>\<open>actor_id_\<close>, \<^verbatim>\<open>ward_func_\<close> (a pointer to one of the two entry points) and
  \<^verbatim>\<open>exec_kernel_vec_\<close>.
\<close>

record ('p, 'st) Actor =
  actor_id_field :: "64 word"
  ward_func_field :: "('p, 'st) Kernel \<Rightarrow> (string \<Rightarrow> 'p outcome) \<Rightarrow> 'st \<Rightarrow> 'st outcome"
  exec_kernel_vec_field :: "('p, 'st) ExecKernel list"

text \<open>
  Modelled from the spec: the helper \<^verbatim>\<open>PbMap2HashMap\<close>, defined elsewhere. The specification's
  binding holds the mapping from operand slots to buffer identifiers that the node's
  description gives: the helper returns the map it is given.
\<close>

definition PbMap2HashMap :: "(string \<rightharpoonup> 64 word) \<Rightarrow> (string \<rightharpoonup> 64 word)" where
  "PbMap2HashMap pb_map = pb_map"

text \<open>
  \<^verbatim>\<open>Actor::Init\<close>. \<^verbatim>\<open>KernelMgr::Singleton().GetKernelFromOpName\<close> is a parameter. The loop
  pushes one \<^verbatim>\<open>ExecKernel\<close> per node, in the order of the nodes.
\<close>

definition Init :: "(string \<Rightarrow> ('p, 'st) Kernel) \<Rightarrow> TaskProto \<Rightarrow> ('p, 'st) Actor" where
  "Init GetKernelFromOpName task_proto =
     \<lparr>actor_id_field = task_id task_proto,
      ward_func_field = (if is_forward task_proto then Forward else Backward),
      exec_kernel_vec_field =
        map (\<lambda>node. \<lparr>kernel = GetKernelFromOpName (op_name node),
                      bn_in_op2regst_desc_id = PbMap2HashMap (node_bn_in_op2regst_desc_id node)\<rparr>)
          (exec_sequence task_proto)\<rparr>"

text \<open>
  The lambda that \<^verbatim>\<open>WardKernel\<close> passes to the entry point. \<^verbatim>\<open>at\<close> throws when the name has
  no entry in the map.
\<close>

definition BnInOp2BlobPtr ::
  "('p, 'st) ExecKernel \<Rightarrow> (64 word \<Rightarrow> 'p Regst) \<Rightarrow> string \<Rightarrow> 'p outcome" where
  "BnInOp2BlobPtr ek GetRegstFromRegstDescId bn_in_op =
     (case bn_in_op2regst_desc_id ek bn_in_op of
        None \<Rightarrow> Aborted OutOfRange
      | Some regst_desc_id \<Rightarrow>
         (let regst = GetRegstFromRegstDescId regst_desc_id;
              lbn = GetLbnFromBnInOp (kernel ek) bn_in_op
          in Returned (GetBlobPtrFromLbn regst lbn)))"

text \<open>
  \<^verbatim>\<open>Actor::WardKernel\<close>: the loop over \<^verbatim>\<open>exec_kernel_vec_\<close>. A failure of an entry point is
  not caught, so the loop ends with it.
\<close>

fun WardKernel_loop ::
  "(('p, 'st) Kernel \<Rightarrow> (string \<Rightarrow> 'p outcome) \<Rightarrow> 'st \<Rightarrow> 'st outcome)
     \<Rightarrow> (64 word \<Rightarrow> 'p Regst) \<Rightarrow> ('p, 'st) ExecKernel list \<Rightarrow> 'st \<Rightarrow> 'st outcome" where
  "WardKernel_loop ward_func GetRegstFromRegstDescId [] st = Returned st"
| "WardKernel_loop ward_func GetRegstFromRegstDescId (ek # eks) st =
     (case ward_func (kernel ek) (BnInOp2BlobPtr ek GetRegstFromRegstDescId) st of
        Aborted a \<Rightarrow> Aborted a
      | Returned st' \<Rightarrow> WardKernel_loop ward_func GetRegstFromRegstDescId eks st')"

definition WardKernel ::
  "('p, 'st) Actor \<Rightarrow> (64 word \<Rightarrow> 'p Regst) \<Rightarrow> 'st \<Rightarrow> 'st outcome" where
  "WardKernel actor GetRegstFromRegstDescId st =
     WardKernel_loop (ward_func_field actor) GetRegstFromRegstDescId (exec_kernel_vec_field actor) st"

section \<open>The reductions as the specification words them\<close>

text \<open>
  The specification describes a reduction as a scan from axis 0 that keeps a current merged
  axis. \<open>spec_runs cur rest\<close> is that scan on any list: \<open>cur\<close> is the current group, and
  each later element comes with the flag that says whether it merges into the current group
  or starts a new one. \<open>spec_groups flags axes\<close> are the groups of \<open>axes\<close>, the flag of axis
  \<open>i \<ge> 1\<close> being \<open>flags ! (i - 1)\<close>.
\<close>

fun spec_runs :: "'a list \<Rightarrow> ('a \<times> bool) list \<Rightarrow> 'a list list" where
  "spec_runs cur [] = [cur]"
| "spec_runs cur ((x, merge) # rest) =
     (if merge then spec_runs (cur @ [x]) rest else cur # spec_runs [x] rest)"

definition spec_groups :: "bool list \<Rightarrow> 'a list \<Rightarrow> 'a list list" where
  "spec_groups flags axes =
     (case axes of [] \<Rightarrow> [] | x # rest \<Rightarrow> spec_runs [x] (zip rest flags))"

text \<open>
  Independent reduction: axis \<open>i\<close> merges iff its annotation equals the annotation of axis
  \<open>i - 1\<close>. Collaborative reduction: iff that holds on the producer side and on the
  consumer side.
\<close>

definition spec_merge_flags :: "'a list \<Rightarrow> bool list" where
  "spec_merge_flags annotations =
     map (\<lambda>i. annotations ! i = annotations ! (i - 1)) [1..<length annotations]"

definition spec_collaborative_flags :: "'a list \<Rightarrow> 'a list \<Rightarrow> bool list" where
  "spec_collaborative_flags in_annotations out_annotations =
     map (\<lambda>i. in_annotations ! i = in_annotations ! (i - 1)
                \<and> out_annotations ! i = out_annotations ! (i - 1))
       [1..<length in_annotations]"

text \<open>
  The reduced hierarchy has one extent per group, the product of the group's extents; the
  reduced distribution has one annotation per group, that of the group's first axis.
\<close>

definition spec_reduced_hierarchy :: "bool list \<Rightarrow> int64 list \<Rightarrow> int64 list" where
  "spec_reduced_hierarchy flags hier = map prod_list (spec_groups flags hier)"

definition spec_reduced_distribution :: "bool list \<Rightarrow> 'a list \<Rightarrow> 'a list" where
  "spec_reduced_distribution flags annotations = map hd (spec_groups flags annotations)"

text \<open>The number of original axes that each reduced axis absorbed.\<close>

definition spec_run_lengths :: "bool list \<Rightarrow> nat \<Rightarrow> nat list" where
  "spec_run_lengths flags n = map length (spec_groups flags [0..<n])"

text \<open>
  A pair is already reduced when no axis can merge under the rule that applies to it: none
  at all when both ranks are 1, the independent rule on each side when the ranks differ,
  the collaborative rule when they are equal.
\<close>

definition spec_already_reduced ::
  "int64 list \<Rightarrow> int64 list \<Rightarrow> 'a list \<Rightarrow> 'a list \<Rightarrow> bool" where
  "spec_already_reduced in_hier out_hier in_annotations out_annotations =
     (if length in_hier = 1 \<and> length out_hier = 1 then True
      else if length in_hier \<noteq> length out_hier then
        True \<notin> set (spec_merge_flags in_annotations)
        \<and> True \<notin> set (spec_merge_flags out_annotations)
      else True \<notin> set (spec_collaborative_flags in_annotations out_annotations))"

section \<open>The reducer computes the runs of the specification\<close>

subsection \<open>The loops\<close>

lemma ParallelAxesReduce_loop_runs:
  assumes "i \<le> length h" "length h \<le> length d" "cd \<noteq> []"
  shows "ParallelAxesReduce_loop h d i (rh @ [prod_list ch], rd @ [hd cd]) =
     Returned
       (rh @ map prod_list (spec_runs ch
               (zip (drop i h) (map (\<lambda>k. d ! k = d ! (k - 1)) [i..<length h]))),
        rd @ map hd (spec_runs cd
               (zip (drop i (take (length h) d)) (map (\<lambda>k. d ! k = d ! (k - 1)) [i..<length h]))))"
  using assms
proof (induction "length h - i" arbitrary: i rh ch rd cd)
  case 0
  then have "i = length h" by simp
  then show ?case by (simp add: NumAxes_def ParallelAxesReduce_loop.simps)
next
  case (Suc n)
  let ?F = "\<lambda>j. map (\<lambda>k. d ! k = d ! (k - 1)) [j..<length h]"
  from Suc have lt: "i < length h" by simp
  have dh: "drop i h = h ! i # drop (Suc i) h"
    using lt by (simp add: Cons_nth_drop_Suc)
  have dd: "drop i (take (length h) d) = d ! i # drop (Suc i) (take (length h) d)"
    using lt Suc.prems by (simp add: Cons_nth_drop_Suc [symmetric])
  have up: "[i..<length h] = i # [Suc i..<length h]"
    using lt by (simp add: upt_conv_Cons)
  have n: "n = length h - Suc i" using Suc.hyps by simp
  have le: "Suc i \<le> length h" using lt by simp
  show ?case
  proof (cases "d ! i = d ! (i - 1)")
    case True
    have step: "ParallelAxesReduce_loop h d i (rh @ [prod_list ch], rd @ [hd cd]) =
        ParallelAxesReduce_loop h d (Suc i)
          (rh @ [prod_list (ch @ [h ! i])], rd @ [hd (cd @ [d ! i])])"
      apply (subst ParallelAxesReduce_loop.simps)
      using lt Suc.prems True by (simp add: NumAxes_def)
    have ih: "ParallelAxesReduce_loop h d (Suc i)
          (rh @ [prod_list (ch @ [h ! i])], rd @ [hd (cd @ [d ! i])]) =
        Returned
          (rh @ map prod_list (spec_runs (ch @ [h ! i]) (zip (drop (Suc i) h) (?F (Suc i)))),
           rd @ map hd (spec_runs (cd @ [d ! i])
                  (zip (drop (Suc i) (take (length h) d)) (?F (Suc i)))))"
      by (rule Suc.hyps(1) [OF n le Suc.prems(2)]) simp
    show ?thesis unfolding step ih using True by (simp add: dh dd up)
  next
    case False
    have step: "ParallelAxesReduce_loop h d i (rh @ [prod_list ch], rd @ [hd cd]) =
        ParallelAxesReduce_loop h d (Suc i)
          ((rh @ [prod_list ch]) @ [prod_list [h ! i]], (rd @ [hd cd]) @ [hd [d ! i]])"
      apply (subst ParallelAxesReduce_loop.simps)
      using lt Suc.prems False by (simp add: NumAxes_def)
    have ih: "ParallelAxesReduce_loop h d (Suc i)
          ((rh @ [prod_list ch]) @ [prod_list [h ! i]], (rd @ [hd cd]) @ [hd [d ! i]]) =
        Returned
          ((rh @ [prod_list ch]) @
             map prod_list (spec_runs [h ! i] (zip (drop (Suc i) h) (?F (Suc i)))),
           (rd @ [hd cd]) @
             map hd (spec_runs [d ! i] (zip (drop (Suc i) (take (length h) d)) (?F (Suc i)))))"
      by (rule Suc.hyps(1) [OF n le Suc.prems(2)]) simp
    show ?thesis unfolding step ih using False by (simp add: dh dd up)
  qed
qed

lemma ParallelAxesReduce_loop_short:
  assumes "i \<le> length d" "length d < length h"
  shows "ParallelAxesReduce_loop h d i acc = Aborted OutOfRange"
  using assms
proof (induction "length d - i" arbitrary: i acc)
  case 0
  then have "i = length d" by simp
  then show ?case using "0.prems"
    by (cases acc) (simp add: NumAxes_def ParallelAxesReduce_loop.simps)
next
  case (Suc n)
  then have lt: "i < length d" and n: "n = length d - Suc i" and le: "Suc i \<le> length d"
    by simp_all
  obtain a b where acc: "acc = (a, b)" by (cases acc)
  show ?case
    unfolding acc
    apply (subst ParallelAxesReduce_loop.simps)
    using lt Suc.prems Suc.hyps(1) [OF n le Suc.prems(2)] by (simp add: NumAxes_def)
qed

lemma merge_flags_take:
  assumes "n \<le> length d"
  shows "map (\<lambda>k. d ! k = d ! (k - 1)) [1..<n] = spec_merge_flags (take n d)"
  using assms unfolding spec_merge_flags_def by (auto simp: min_def)

lemma collaborative_flags_take:
  assumes "n \<le> length di" "n \<le> length dd"
  shows "map (\<lambda>k. di ! k = di ! (k - 1) \<and> dd ! k = dd ! (k - 1)) [1..<n] =
         spec_collaborative_flags (take n di) (take n dd)"
  using assms unfolding spec_collaborative_flags_def by (auto simp: min_def)

lemma ParallelAxesReduce_loop_from_1:
  assumes h: "h = h0 # ht" and d: "d = d0 # dt" and len: "length h \<le> length d"
  shows "ParallelAxesReduce_loop h d 1 ([h0], ret0 @ [d0]) =
     Returned
       (spec_reduced_hierarchy (spec_merge_flags (take (length h) d)) h,
        ret0 @ spec_reduced_distribution (spec_merge_flags (take (length h) d))
                 (take (length h) d))"
proof -
  define F where "F = spec_merge_flags (take (length h) d)"
  have flags: "map (\<lambda>k. d ! k = d ! (k - 1)) [1..<length h] = F"
    unfolding F_def by (rule merge_flags_take [OF len])
  have dr1: "drop 1 h = ht" by (simp add: h)
  have dr2: "drop 1 (take (length h) d) = take (length ht) dt" by (simp add: h d)
  have g1: "spec_groups F h = spec_runs [h0] (zip ht F)"
    by (simp add: spec_groups_def h)
  have g2: "spec_groups F (take (length h) d) = spec_runs [d0] (zip (take (length ht) dt) F)"
    by (simp add: spec_groups_def h d)
  have "ParallelAxesReduce_loop h d 1 ([] @ [prod_list [h0]], ret0 @ [hd [d0]]) =
     Returned
       ([] @ map prod_list (spec_runs [h0]
               (zip (drop 1 h) (map (\<lambda>k. d ! k = d ! (k - 1)) [1..<length h]))),
        ret0 @ map hd (spec_runs [d0]
               (zip (drop 1 (take (length h) d)) (map (\<lambda>k. d ! k = d ! (k - 1)) [1..<length h]))))"
    by (rule ParallelAxesReduce_loop_runs) (use len h in simp_all)
  then have "ParallelAxesReduce_loop h d 1 ([] @ [prod_list [h0]], ret0 @ [hd [d0]]) =
     Returned ([] @ map prod_list (spec_groups F h), ret0 @ map hd (spec_groups F (take (length h) d)))"
    unfolding flags dr1 dr2 g1 g2 .
  then show ?thesis
    unfolding F_def [symmetric] spec_reduced_hierarchy_def spec_reduced_distribution_def by simp
qed

lemma ParallelAxesReduce_eq:
  assumes "desc_hierarchy pd \<noteq> []" "length (desc_hierarchy pd) \<le> length d"
  shows "ParallelAxesReduce pd d ret0 =
     Returned
       (ParallelDesc ((parallel_conf pd)\<lparr>hierarchy :=
          spec_reduced_hierarchy (spec_merge_flags (take (length (desc_hierarchy pd)) d))
            (desc_hierarchy pd)\<rparr>),
        ret0 @ spec_reduced_distribution (spec_merge_flags (take (length (desc_hierarchy pd)) d))
                 (take (length (desc_hierarchy pd)) d))"
proof -
  obtain h0 ht where h: "desc_hierarchy pd = h0 # ht"
    using assms(1) by (cases "desc_hierarchy pd") auto
  obtain d0 dt where d: "d = d0 # dt" using assms by (cases d) auto
  note loop = ParallelAxesReduce_loop_from_1 [OF h d assms(2), of ret0]
  have at: "At (desc_hierarchy pd) 0 = Returned h0" by (simp add: At_def h)
  have sbp: "sbp_parallel d 0 = Returned d0" by (simp add: sbp_parallel_def d)
  show ?thesis
    unfolding ParallelAxesReduce_def Let_def at sbp outcome.case loop prod.case ..
qed

lemma ParallelAxesReduce_abort:
  assumes "desc_hierarchy pd = [] \<or> length d < length (desc_hierarchy pd)"
  shows "ParallelAxesReduce pd d ret0 = Aborted OutOfRange"
proof (cases "desc_hierarchy pd = []")
  case True
  then show ?thesis by (simp add: ParallelAxesReduce_def At_def)
next
  case False
  then have short: "length d < length (desc_hierarchy pd)" using assms by simp
  show ?thesis
  proof (cases d)
    case Nil
    then show ?thesis using False
      by (simp add: ParallelAxesReduce_def At_def sbp_parallel_def)
  next
    case (Cons d0 dt)
    have "ParallelAxesReduce_loop (desc_hierarchy pd) d 1 acc = Aborted OutOfRange" for acc
      by (rule ParallelAxesReduce_loop_short) (use short Cons in simp_all)
    then show ?thesis using False Cons
      by (simp add: ParallelAxesReduce_def At_def sbp_parallel_def)
  qed
qed

lemma CollaborativeParallelAxesReduce_loop_runs:
  assumes "i \<le> length hi" "length ho = length hi" "length hi \<le> length di" "length hi \<le> length dd"
    "ci \<noteq> []" "co \<noteq> []"
  shows "CollaborativeParallelAxesReduce_loop hi ho di dd i
           ((rhi @ [prod_list chi], rdi @ [hd ci]), (rho @ [prod_list cho], rdo @ [hd co])) =
     Returned
       ((rhi @ map prod_list (spec_runs chi (zip (drop i hi)
            (map (\<lambda>k. di ! k = di ! (k - 1) \<and> dd ! k = dd ! (k - 1)) [i..<length hi]))),
         rdi @ map hd (spec_runs ci (zip (drop i (take (length hi) di))
            (map (\<lambda>k. di ! k = di ! (k - 1) \<and> dd ! k = dd ! (k - 1)) [i..<length hi])))),
        (rho @ map prod_list (spec_runs cho (zip (drop i ho)
            (map (\<lambda>k. di ! k = di ! (k - 1) \<and> dd ! k = dd ! (k - 1)) [i..<length hi]))),
         rdo @ map hd (spec_runs co (zip (drop i (take (length hi) dd))
            (map (\<lambda>k. di ! k = di ! (k - 1) \<and> dd ! k = dd ! (k - 1)) [i..<length hi])))))"
  using assms
proof (induction "length hi - i" arbitrary: i rhi chi rdi ci rho cho rdo co)
  case 0
  then have "i = length hi" by simp
  then show ?case
    by (simp add: NumAxes_def CollaborativeParallelAxesReduce_loop.simps)
next
  case (Suc n)
  let ?F = "\<lambda>j. map (\<lambda>k. di ! k = di ! (k - 1) \<and> dd ! k = dd ! (k - 1)) [j..<length hi]"
  from Suc have lt: "i < length hi" by simp
  have dhi: "drop i hi = hi ! i # drop (Suc i) hi" using lt by (simp add: Cons_nth_drop_Suc)
  have dho: "drop i ho = ho ! i # drop (Suc i) ho" using lt Suc.prems by (simp add: Cons_nth_drop_Suc)
  have ddi: "drop i (take (length hi) di) = di ! i # drop (Suc i) (take (length hi) di)"
    using lt Suc.prems by (simp add: Cons_nth_drop_Suc [symmetric])
  have ddo: "drop i (take (length hi) dd) = dd ! i # drop (Suc i) (take (length hi) dd)"
    using lt Suc.prems by (simp add: Cons_nth_drop_Suc [symmetric])
  have up: "[i..<length hi] = i # [Suc i..<length hi]" using lt by (simp add: upt_conv_Cons)
  have n: "n = length hi - Suc i" using Suc.hyps by simp
  have le: "Suc i \<le> length hi" using lt by simp
  note prem = Suc.prems(2-4)
  show ?case
  proof (cases "di ! i = di ! (i - 1) \<and> dd ! i = dd ! (i - 1)")
    case True
    have step: "CollaborativeParallelAxesReduce_loop hi ho di dd i
           ((rhi @ [prod_list chi], rdi @ [hd ci]), (rho @ [prod_list cho], rdo @ [hd co])) =
          CollaborativeParallelAxesReduce_loop hi ho di dd (Suc i)
           ((rhi @ [prod_list (chi @ [hi ! i])], rdi @ [hd (ci @ [di ! i])]),
            (rho @ [prod_list (cho @ [ho ! i])], rdo @ [hd (co @ [dd ! i])]))"
      apply (subst CollaborativeParallelAxesReduce_loop.simps)
      using lt Suc.prems True by (simp add: NumAxes_def)
    have ih: "CollaborativeParallelAxesReduce_loop hi ho di dd (Suc i)
           ((rhi @ [prod_list (chi @ [hi ! i])], rdi @ [hd (ci @ [di ! i])]),
            (rho @ [prod_list (cho @ [ho ! i])], rdo @ [hd (co @ [dd ! i])])) = Returned
       ((rhi @ map prod_list (spec_runs (chi @ [hi ! i]) (zip (drop (Suc i) hi) (?F (Suc i)))),
         rdi @ map hd (spec_runs (ci @ [di ! i]) (zip (drop (Suc i) (take (length hi) di)) (?F (Suc i))))),
        (rho @ map prod_list (spec_runs (cho @ [ho ! i]) (zip (drop (Suc i) ho) (?F (Suc i)))),
         rdo @ map hd (spec_runs (co @ [dd ! i]) (zip (drop (Suc i) (take (length hi) dd)) (?F (Suc i))))))"
      by (rule Suc.hyps(1) [OF n le prem]) simp_all
    show ?thesis unfolding step ih using True by (simp add: dhi dho ddi ddo up)
  next
    case False
    have step: "CollaborativeParallelAxesReduce_loop hi ho di dd i
           ((rhi @ [prod_list chi], rdi @ [hd ci]), (rho @ [prod_list cho], rdo @ [hd co])) =
          CollaborativeParallelAxesReduce_loop hi ho di dd (Suc i)
           (((rhi @ [prod_list chi]) @ [prod_list [hi ! i]], (rdi @ [hd ci]) @ [hd [di ! i]]),
            ((rho @ [prod_list cho]) @ [prod_list [ho ! i]], (rdo @ [hd co]) @ [hd [dd ! i]]))"
      apply (subst CollaborativeParallelAxesReduce_loop.simps)
      using lt Suc.prems False
      by (cases "di ! i = di ! (i - 1)")
        (simp_all add: NumAxes_def)
    have ih: "CollaborativeParallelAxesReduce_loop hi ho di dd (Suc i)
           (((rhi @ [prod_list chi]) @ [prod_list [hi ! i]], (rdi @ [hd ci]) @ [hd [di ! i]]),
            ((rho @ [prod_list cho]) @ [prod_list [ho ! i]], (rdo @ [hd co]) @ [hd [dd ! i]])) = Returned
       (((rhi @ [prod_list chi]) @ map prod_list (spec_runs [hi ! i] (zip (drop (Suc i) hi) (?F (Suc i)))),
         (rdi @ [hd ci]) @ map hd (spec_runs [di ! i] (zip (drop (Suc i) (take (length hi) di)) (?F (Suc i))))),
        ((rho @ [prod_list cho]) @ map prod_list (spec_runs [ho ! i] (zip (drop (Suc i) ho) (?F (Suc i)))),
         (rdo @ [hd co]) @ map hd (spec_runs [dd ! i] (zip (drop (Suc i) (take (length hi) dd)) (?F (Suc i))))))"
      by (rule Suc.hyps(1) [OF n le prem]) simp_all
    show ?thesis unfolding step ih using False
      by (cases "di ! i = di ! (i - 1)") (simp_all add: dhi dho ddi ddo up)
  qed
qed


lemma CollaborativeParallelAxesReduce_loop_from_1:
  assumes hi: "hi = hi0 # hit" and ho: "ho = ho0 # hot" and di: "di = di0 # dit"
    and dd: "dd = dd0 # ddt" and eq: "length ho = length hi"
    and leni: "length hi \<le> length di" and leno: "length hi \<le> length dd"
  shows "CollaborativeParallelAxesReduce_loop hi ho di dd 1
           (([hi0], reti @ [di0]), ([ho0], reto @ [dd0])) =
     Returned
       ((spec_reduced_hierarchy
           (spec_collaborative_flags (take (length hi) di) (take (length hi) dd)) hi,
         reti @ spec_reduced_distribution
           (spec_collaborative_flags (take (length hi) di) (take (length hi) dd))
           (take (length hi) di)),
        (spec_reduced_hierarchy
           (spec_collaborative_flags (take (length hi) di) (take (length hi) dd)) ho,
         reto @ spec_reduced_distribution
           (spec_collaborative_flags (take (length hi) di) (take (length hi) dd))
           (take (length hi) dd)))"
proof -
  define F where "F = spec_collaborative_flags (take (length hi) di) (take (length hi) dd)"
  have flags: "map (\<lambda>k. di ! k = di ! (k - 1) \<and> dd ! k = dd ! (k - 1)) [1..<length hi] = F"
    unfolding F_def by (rule collaborative_flags_take [OF leni leno])
  have dr1: "drop 1 hi = hit" by (simp add: hi)
  have dr2: "drop 1 ho = hot" by (simp add: ho)
  have dr3: "drop 1 (take (length hi) di) = take (length hit) dit" by (simp add: hi di)
  have dr4: "drop 1 (take (length hi) dd) = take (length hit) ddt" by (simp add: hi dd)
  have g1: "spec_groups F hi = spec_runs [hi0] (zip hit F)"
    by (simp add: spec_groups_def hi)
  have g2: "spec_groups F ho = spec_runs [ho0] (zip hot F)"
    by (simp add: spec_groups_def ho)
  have g3: "spec_groups F (take (length hi) di) = spec_runs [di0] (zip (take (length hit) dit) F)"
    by (simp add: spec_groups_def hi di)
  have g4: "spec_groups F (take (length hi) dd) = spec_runs [dd0] (zip (take (length hit) ddt) F)"
    by (simp add: spec_groups_def hi dd)
  have "CollaborativeParallelAxesReduce_loop hi ho di dd 1
           (([] @ [prod_list [hi0]], reti @ [hd [di0]]), ([] @ [prod_list [ho0]], reto @ [hd [dd0]])) =
     Returned
       (([] @ map prod_list (spec_runs [hi0] (zip (drop 1 hi)
            (map (\<lambda>k. di ! k = di ! (k - 1) \<and> dd ! k = dd ! (k - 1)) [1..<length hi]))),
         reti @ map hd (spec_runs [di0] (zip (drop 1 (take (length hi) di))
            (map (\<lambda>k. di ! k = di ! (k - 1) \<and> dd ! k = dd ! (k - 1)) [1..<length hi])))),
        ([] @ map prod_list (spec_runs [ho0] (zip (drop 1 ho)
            (map (\<lambda>k. di ! k = di ! (k - 1) \<and> dd ! k = dd ! (k - 1)) [1..<length hi]))),
         reto @ map hd (spec_runs [dd0] (zip (drop 1 (take (length hi) dd))
            (map (\<lambda>k. di ! k = di ! (k - 1) \<and> dd ! k = dd ! (k - 1)) [1..<length hi])))))"
    by (rule CollaborativeParallelAxesReduce_loop_runs) (use eq leni leno hi in simp_all)
  then have "CollaborativeParallelAxesReduce_loop hi ho di dd 1
           (([] @ [prod_list [hi0]], reti @ [hd [di0]]), ([] @ [prod_list [ho0]], reto @ [hd [dd0]])) =
     Returned
       (([] @ map prod_list (spec_groups F hi), reti @ map hd (spec_groups F (take (length hi) di))),
        ([] @ map prod_list (spec_groups F ho), reto @ map hd (spec_groups F (take (length hi) dd))))"
    unfolding flags dr1 dr2 dr3 dr4 g1 g2 g3 g4 .
  then show ?thesis
    unfolding F_def [symmetric] spec_reduced_hierarchy_def spec_reduced_distribution_def by simp
qed

lemma CollaborativeParallelAxesReduce_eq:
  assumes "desc_hierarchy in_pd \<noteq> []"
    and "length (desc_hierarchy out_pd) = length (desc_hierarchy in_pd)"
    and "length (desc_hierarchy in_pd) \<le> length in_d"
    and "length (desc_hierarchy in_pd) \<le> length out_d"
  shows "CollaborativeParallelAxesReduce in_pd out_pd in_d out_d in_ret0 out_ret0 =
     Returned
       ((ParallelDesc ((parallel_conf in_pd)\<lparr>hierarchy :=
           spec_reduced_hierarchy
             (spec_collaborative_flags (take (length (desc_hierarchy in_pd)) in_d)
                (take (length (desc_hierarchy in_pd)) out_d))
             (desc_hierarchy in_pd)\<rparr>),
         in_ret0 @ spec_reduced_distribution
             (spec_collaborative_flags (take (length (desc_hierarchy in_pd)) in_d)
                (take (length (desc_hierarchy in_pd)) out_d))
             (take (length (desc_hierarchy in_pd)) in_d)),
        (ParallelDesc ((parallel_conf out_pd)\<lparr>hierarchy :=
           spec_reduced_hierarchy
             (spec_collaborative_flags (take (length (desc_hierarchy in_pd)) in_d)
                (take (length (desc_hierarchy in_pd)) out_d))
             (desc_hierarchy out_pd)\<rparr>),
         out_ret0 @ spec_reduced_distribution
             (spec_collaborative_flags (take (length (desc_hierarchy in_pd)) in_d)
                (take (length (desc_hierarchy in_pd)) out_d))
             (take (length (desc_hierarchy in_pd)) out_d)))"
proof -
  obtain hi0 hit where hi: "desc_hierarchy in_pd = hi0 # hit"
    using assms(1) by (cases "desc_hierarchy in_pd") auto
  obtain ho0 hot where ho: "desc_hierarchy out_pd = ho0 # hot"
    using assms(1,2) by (cases "desc_hierarchy out_pd") auto
  obtain di0 dit where di: "in_d = di0 # dit" using assms by (cases in_d) auto
  obtain dd0 ddt where dd: "out_d = dd0 # ddt" using assms by (cases out_d) auto
  note loop = CollaborativeParallelAxesReduce_loop_from_1
    [OF hi ho di dd assms(2) assms(3) assms(4), of in_ret0 out_ret0]
  have ranks: "(NumAxes (desc_hierarchy in_pd) \<noteq> NumAxes (desc_hierarchy out_pd)) = False"
    using assms(2) by (simp add: NumAxes_def)
  have at1: "At (desc_hierarchy in_pd) 0 = Returned hi0" by (simp add: At_def hi)
  have at2: "At (desc_hierarchy out_pd) 0 = Returned ho0" by (simp add: At_def ho)
  have sbp1: "sbp_parallel in_d 0 = Returned di0" by (simp add: sbp_parallel_def di)
  have sbp2: "sbp_parallel out_d 0 = Returned dd0" by (simp add: sbp_parallel_def dd)
  show ?thesis
    unfolding CollaborativeParallelAxesReduce_def Let_def ranks if_False at1 at2 sbp1 sbp2
      outcome.case loop prod.case ..
qed

lemma CollaborativeParallelAxesReduce_check:
  assumes "length (desc_hierarchy out_pd) \<noteq> length (desc_hierarchy in_pd)"
  shows "CollaborativeParallelAxesReduce in_pd out_pd in_d out_d in_ret0 out_ret0 =
         Aborted CheckFailed"
  using assms by (simp add: CollaborativeParallelAxesReduce_def NumAxes_def Let_def)

subsection \<open>Properties of the runs\<close>

lemma spec_runs_concat: "concat (spec_runs cur xs) = cur @ map fst xs"
  by (induction cur xs rule: spec_runs.induct) auto

lemma spec_runs_prod:
  "prod_list (map prod_list (spec_runs cur xs)) = prod_list cur * prod_list (map fst xs)"
  by (induction cur xs rule: spec_runs.induct) (auto simp: mult.assoc)

lemma spec_runs_nonempty: "cur \<noteq> [] \<Longrightarrow> [] \<notin> set (spec_runs cur xs)"
  by (induction cur xs rule: spec_runs.induct) auto

lemma spec_runs_lengths:
  "length xs = length ys \<Longrightarrow> length c1 = length c2 \<Longrightarrow>
   map length (spec_runs c1 (zip xs fs)) = map length (spec_runs c2 (zip ys fs))"
proof (induction xs ys arbitrary: c1 c2 fs rule: list_induct2)
  case Nil
  then show ?case by simp
next
  case (Cons x xs y ys)
  then show ?case by (cases fs) auto
qed

lemma spec_groups_lengths:
  assumes "length xs = length ys"
  shows "map length (spec_groups flags xs) = map length (spec_groups flags ys)"
proof (cases xs)
  case Nil
  then show ?thesis using assms by (simp add: spec_groups_def)
next
  case (Cons x xt)
  then obtain y yt where ys: "ys = y # yt" and "length xt = length yt"
    using assms by (cases ys) auto
  then show ?thesis
    using Cons spec_runs_lengths [of xt yt "[x]" "[y]" flags] by (simp add: spec_groups_def)
qed

lemma spec_groups_concat:
  assumes "length xs \<le> Suc (length flags)"
  shows "concat (spec_groups flags xs) = xs"
  using assms
  by (cases xs) (simp_all add: spec_groups_def spec_runs_concat map_fst_zip_take)

lemma spec_groups_prod:
  assumes "length xs \<le> Suc (length flags)"
  shows "prod_list (map prod_list (spec_groups flags xs)) = prod_list xs"
  using assms
  by (cases xs) (simp_all add: spec_groups_def spec_runs_prod map_fst_zip_take)

lemma spec_runs_constant:
  assumes "\<forall>a\<in>set cur. a = c" "cur \<noteq> []"
    and "\<forall>k<length xs. k < length fs \<longrightarrow> fs ! k \<longrightarrow> xs ! k = (c # xs) ! k"
  shows "\<forall>g\<in>set (spec_runs cur (zip xs fs)). \<forall>a\<in>set g. a = hd g"
  using assms
proof (induction xs arbitrary: cur c fs)
  case Nil
  then show ?case by (cases cur) auto
next
  case (Cons x xs)
  show ?case
  proof (cases fs)
    case Nil
    then show ?thesis using Cons.prems by (cases cur) auto
  next
    case fs: (Cons f fs')
    have rest: "\<forall>k<length xs. k < length fs' \<longrightarrow> fs' ! k \<longrightarrow> xs ! k = (x # xs) ! k"
    proof (intro allI impI)
      fix k assume "k < length xs" "k < length fs'" "fs' ! k"
      then show "xs ! k = (x # xs) ! k"
        using Cons.prems(3) [rule_format, of "Suc k"] fs by simp
    qed
    show ?thesis
    proof (cases f)
      case True
      then have xc: "x = c" using Cons.prems(3) [rule_format, of 0] fs by simp
      have "\<forall>g\<in>set (spec_runs (cur @ [x]) (zip xs fs')). \<forall>a\<in>set g. a = hd g"
        by (rule Cons.IH [of "cur @ [x]" c]) (use Cons.prems xc rest in auto)
      then show ?thesis using True fs by simp
    next
      case False
      have "\<forall>g\<in>set (spec_runs [x] (zip xs fs')). \<forall>a\<in>set g. a = hd g"
        by (rule Cons.IH [of "[x]" x]) (use rest in auto)
      moreover have "\<forall>a\<in>set cur. a = hd cur"
        using Cons.prems(1,2) by (cases cur) auto
      ultimately show ?thesis using False fs by simp
    qed
  qed
qed

lemma expand_constant_groups:
  assumes "\<forall>g\<in>set G. \<forall>a\<in>set g. a = hd g"
  shows "concat (map2 replicate (map length G) (map hd G)) = concat G"
proof -
  have "map2 replicate (map length G) (map hd G) = map (\<lambda>g. replicate (length g) (hd g)) G"
    by (induction G) auto
  also have "\<dots> = map (\<lambda>g. g) G"
  proof (rule map_cong [OF refl])
    fix g assume "g \<in> set G"
    then have "\<forall>a\<in>set g. a = hd g" using assms by blast
    then show "replicate (length g) (hd g) = g" by (simp add: replicate_length_same)
  qed
  finally show ?thesis by simp
qed

lemma spec_groups_expand:
  assumes len: "length ds \<le> Suc (length flags)"
    and sound: "\<forall>k<length flags. Suc k < length ds \<longrightarrow> flags ! k \<longrightarrow> ds ! Suc k = ds ! k"
  shows "concat (map2 replicate (spec_run_lengths flags (length ds))
           (spec_reduced_distribution flags ds)) = ds"
proof (cases ds)
  case Nil
  then show ?thesis
    by (simp add: spec_run_lengths_def spec_reduced_distribution_def spec_groups_def)
next
  case (Cons d0 dt)
  have "\<forall>g\<in>set (spec_runs [d0] (zip dt flags)). \<forall>a\<in>set g. a = hd g"
  proof (rule spec_runs_constant [of "[d0]" d0])
    show "\<forall>k<length dt. k < length flags \<longrightarrow> flags ! k \<longrightarrow> dt ! k = (d0 # dt) ! k"
      using sound Cons by auto
  qed simp_all
  then have const: "\<forall>g\<in>set (spec_groups flags ds). \<forall>a\<in>set g. a = hd g"
    by (simp add: spec_groups_def Cons)
  have "spec_run_lengths flags (length ds) = map length (spec_groups flags ds)"
    unfolding spec_run_lengths_def by (rule spec_groups_lengths) simp
  then show ?thesis
    unfolding spec_reduced_distribution_def
    using expand_constant_groups [OF const] spec_groups_concat [OF len] by simp
qed

lemma spec_merge_flags_sound:
  "\<forall>k<length (spec_merge_flags ds). Suc k < length ds \<longrightarrow> spec_merge_flags ds ! k \<longrightarrow>
     ds ! Suc k = ds ! k"
  by (simp add: spec_merge_flags_def)

lemma spec_collaborative_flags_sound_in:
  "\<forall>k<length (spec_collaborative_flags ds es). Suc k < length ds \<longrightarrow>
     spec_collaborative_flags ds es ! k \<longrightarrow> ds ! Suc k = ds ! k"
  by (simp add: spec_collaborative_flags_def)

lemma spec_collaborative_flags_sound_out:
  "\<forall>k<length (spec_collaborative_flags ds es). Suc k < length es \<longrightarrow>
     spec_collaborative_flags ds es ! k \<longrightarrow> es ! Suc k = es ! k"
  by (simp add: spec_collaborative_flags_def)

subsection \<open>Runs when nothing merges\<close>

lemma spec_runs_no_merge:
  assumes "True \<notin> set fs"
  shows "spec_runs cur (zip xs fs) = cur # map (\<lambda>x. [x]) (take (length fs) xs)"
  using assms
proof (induction xs arbitrary: cur fs)
  case Nil
  then show ?case by simp
next
  case (Cons x xs)
  then show ?case by (cases fs) auto
qed

lemma spec_groups_no_merge:
  assumes "True \<notin> set flags" "length xs \<le> Suc (length flags)"
  shows "spec_groups flags xs = map (\<lambda>x. [x]) xs"
  using assms by (cases xs) (simp_all add: spec_groups_def spec_runs_no_merge)

lemma spec_reduced_hierarchy_no_merge:
  assumes "True \<notin> set flags" "length xs \<le> Suc (length flags)"
  shows "spec_reduced_hierarchy flags xs = xs"
  using spec_groups_no_merge [OF assms]
  by (simp add: spec_reduced_hierarchy_def comp_def)

lemma spec_reduced_distribution_no_merge:
  assumes "True \<notin> set flags" "length xs \<le> Suc (length flags)"
  shows "spec_reduced_distribution flags xs = xs"
  using spec_groups_no_merge [OF assms]
  by (simp add: spec_reduced_distribution_def comp_def)

lemma ParallelDesc_same_hierarchy:
  "ParallelDesc ((parallel_conf pd)\<lparr>hierarchy := desc_hierarchy pd\<rparr>) = pd"
  by (cases pd) (simp add: desc_hierarchy_def)

lemma ParallelAxesReduce_already_reduced:
  assumes "desc_hierarchy pd \<noteq> []" "length d = length (desc_hierarchy pd)"
    and "True \<notin> set (spec_merge_flags d)"
  shows "ParallelAxesReduce pd d [] = Returned (pd, d)"
proof -
  have len: "length (spec_merge_flags d) = length d - 1"
    by (simp add: spec_merge_flags_def)
  have h: "spec_reduced_hierarchy (spec_merge_flags d) (desc_hierarchy pd) = desc_hierarchy pd"
    by (rule spec_reduced_hierarchy_no_merge [OF assms(3)]) (simp add: len assms(2) [symmetric])
  have a: "spec_reduced_distribution (spec_merge_flags d) d = d"
    by (rule spec_reduced_distribution_no_merge [OF assms(3)]) (simp add: len)
  show ?thesis
    using ParallelAxesReduce_eq [of pd d "[]"] assms(1,2)
    by (simp add: h a ParallelDesc_same_hierarchy)
qed

lemma CollaborativeParallelAxesReduce_already_reduced:
  assumes "desc_hierarchy in_pd \<noteq> []"
    and "length (desc_hierarchy out_pd) = length (desc_hierarchy in_pd)"
    and "length in_d = length (desc_hierarchy in_pd)"
    and "length out_d = length (desc_hierarchy in_pd)"
    and "True \<notin> set (spec_collaborative_flags in_d out_d)"
  shows "CollaborativeParallelAxesReduce in_pd out_pd in_d out_d [] [] =
         Returned ((in_pd, in_d), (out_pd, out_d))"
proof -
  let ?F = "spec_collaborative_flags in_d out_d"
  have len: "length ?F = length in_d - 1"
    by (simp add: spec_collaborative_flags_def)
  have hi: "spec_reduced_hierarchy ?F (desc_hierarchy in_pd) = desc_hierarchy in_pd"
    by (rule spec_reduced_hierarchy_no_merge [OF assms(5)]) (simp add: len assms(3))
  have ho: "spec_reduced_hierarchy ?F (desc_hierarchy out_pd) = desc_hierarchy out_pd"
    by (rule spec_reduced_hierarchy_no_merge [OF assms(5)]) (simp add: len assms(2,3))
  have ai: "spec_reduced_distribution ?F in_d = in_d"
    by (rule spec_reduced_distribution_no_merge [OF assms(5)]) (simp add: len)
  have ao: "spec_reduced_distribution ?F out_d = out_d"
    by (rule spec_reduced_distribution_no_merge [OF assms(5)]) (simp add: len assms(3,4))
  show ?thesis
    using CollaborativeParallelAxesReduce_eq [of in_pd out_pd in_d out_d "[]" "[]"] assms(1-4)
    by (simp add: hi ho ai ao ParallelDesc_same_hierarchy)
qed

subsection \<open>The returned distributions only grow\<close>

lemma ParallelAxesReduce_loop_grows:
  "ParallelAxesReduce_loop h d i acc = Returned acc' \<Longrightarrow> length (snd acc) \<le> length (snd acc')"
proof (induction h d i acc rule: ParallelAxesReduce_loop.induct)
  case (1 hier dist i reduced_hierarchy ret_dist)
  note eq = "1.prems" [unfolded ParallelAxesReduce_loop.simps [of hier dist i]]
  show ?case
  proof (cases "i < NumAxes hier")
    case False
    then show ?thesis using eq by auto
  next
    case True
    then have lt: "i < length dist" using eq by (auto split: if_splits)
    show ?thesis
    proof (cases "dist ! i = dist ! (i - 1)")
      case same: True
      have "length (snd (butlast reduced_hierarchy @ [last reduced_hierarchy * hier ! i], ret_dist))
            \<le> length (snd acc')"
        by (rule "1.IH"(1) [OF True lt same]) (use eq True lt same in simp)
      then show ?thesis by simp
    next
      case differ: False
      have "length (snd (reduced_hierarchy @ [hier ! i], ret_dist @ [dist ! i]))
            \<le> length (snd acc')"
        by (rule "1.IH"(2) [OF True lt differ]) (use eq True lt differ in simp)
      then show ?thesis by simp
    qed
  qed
qed

lemma CollaborativeParallelAxesReduce_loop_grows:
  "CollaborativeParallelAxesReduce_loop hi ho di dd i acc = Returned acc' \<Longrightarrow>
   length (snd (fst acc)) \<le> length (snd (fst acc')) \<and>
   length (snd (snd acc)) \<le> length (snd (snd acc'))"
proof (induction hi ho di dd i acc rule: CollaborativeParallelAxesReduce_loop.induct)
  case (1 in_hier out_hier in_dist out_dist i in_reduced in_ret out_reduced out_ret)
  note eq = "1.prems"
    [unfolded CollaborativeParallelAxesReduce_loop.simps [of in_hier out_hier in_dist out_dist i]]
  show ?case
  proof (cases "i < NumAxes in_hier")
    case False
    then show ?thesis using eq by auto
  next
    case True
    then have lt: "i < length in_dist \<and> i < length out_dist \<and> i < NumAxes out_hier"
      using eq by (auto split: if_splits)
    show ?thesis
    proof (cases "in_dist ! i = in_dist ! (i - 1) \<and> out_dist ! i = out_dist ! (i - 1)")
      case same: True
      have "length (snd (fst ((butlast in_reduced @ [last in_reduced * in_hier ! i], in_ret),
                 (butlast out_reduced @ [last out_reduced * out_hier ! i], out_ret))))
              \<le> length (snd (fst acc'))
          \<and> length (snd (snd ((butlast in_reduced @ [last in_reduced * in_hier ! i], in_ret),
                 (butlast out_reduced @ [last out_reduced * out_hier ! i], out_ret))))
              \<le> length (snd (snd acc'))"
        by (rule "1.IH"(1) [OF True lt same]) (use eq True lt same in simp)
      then show ?thesis by simp
    next
      case differ: False
      have "CollaborativeParallelAxesReduce_loop in_hier out_hier in_dist out_dist (Suc i)
              ((in_reduced @ [in_hier ! i], in_ret @ [in_dist ! i]),
               (out_reduced @ [out_hier ! i], out_ret @ [out_dist ! i])) = Returned acc'"
        using eq True lt differ by (cases "in_dist ! i = in_dist ! (i - 1)") simp_all
      then have "length (snd (fst ((in_reduced @ [in_hier ! i], in_ret @ [in_dist ! i]),
                 (out_reduced @ [out_hier ! i], out_ret @ [out_dist ! i]))))
              \<le> length (snd (fst acc'))
          \<and> length (snd (snd ((in_reduced @ [in_hier ! i], in_ret @ [in_dist ! i]),
                 (out_reduced @ [out_hier ! i], out_ret @ [out_dist ! i]))))
              \<le> length (snd (snd acc'))"
        by (rule "1.IH"(2) [OF True lt differ])
      then show ?thesis by simp
    qed
  qed
qed

lemma ParallelAxesReduce_Returned_nonempty:
  assumes "ParallelAxesReduce pd d ret0 = Returned (pd', rd)"
  shows "rd \<noteq> []"
  using assms
  by (auto simp: ParallelAxesReduce_def Let_def split: outcome.splits
      dest!: ParallelAxesReduce_loop_grows)

lemma CollaborativeParallelAxesReduce_Returned_nonempty:
  assumes "CollaborativeParallelAxesReduce in_pd out_pd in_d out_d r1 r2 =
           Returned ((in_pd', in_rd), (out_pd', out_rd))"
  shows "in_rd \<noteq> [] \<and> out_rd \<noteq> []"
  using assms
  by (auto simp: CollaborativeParallelAxesReduce_def Let_def split: outcome.splits if_splits
      dest!: CollaborativeParallelAxesReduce_loop_grows)

lemma InOutParallelAxesReduce_Returned_nonempty:
  assumes "InOutParallelAxesReduce in_pd out_pd in_d out_d r1 r2 =
           Returned ((in_pd', in_rd), (out_pd', out_rd))"
    and "in_d \<noteq> []" "out_d \<noteq> []"
  shows "in_rd \<noteq> [] \<and> out_rd \<noteq> []"
  using assms
  by (auto simp: InOutParallelAxesReduce_def Let_def split: outcome.splits if_splits
      dest: ParallelAxesReduce_Returned_nonempty CollaborativeParallelAxesReduce_Returned_nonempty)

subsection \<open>The reduced annotations are the annotations without adjacent repetitions\<close>

lemma spec_merge_flags_Cons:
  "spec_merge_flags (c # x # xs) = (x = c) # spec_merge_flags (x # xs)"
proof -
  have "[1..<Suc (Suc (length xs))] = 1 # map Suc [1..<Suc (length xs)]"
    by (simp add: map_Suc_upt upt_conv_Cons del: upt_Suc)
  moreover have "map ((\<lambda>i. (c # x # xs) ! i = (c # x # xs) ! (i - 1)) \<circ> Suc) [1..<Suc (length xs)] =
        map (\<lambda>i. (x # xs) ! i = (x # xs) ! (i - 1)) [1..<Suc (length xs)]"
    by (rule map_cong [OF refl]) (auto simp: nth_Cons')
  ultimately show ?thesis
    by (simp add: spec_merge_flags_def del: upt_Suc)
qed

lemma spec_runs_heads:
  assumes "cur \<noteq> []"
  shows "map hd (spec_runs cur (zip xs (spec_merge_flags (c # xs)))) =
         hd cur # tl (remdups_adj (c # xs))"
  using assms
proof (induction xs arbitrary: cur c)
  case Nil
  then show ?case by (simp add: spec_merge_flags_def)
next
  case (Cons x xs)
  show ?case
  proof (cases "x = c")
    case True
    have "map hd (spec_runs (cur @ [x]) (zip xs (spec_merge_flags (x # xs)))) =
          hd (cur @ [x]) # tl (remdups_adj (x # xs))"
      by (rule Cons.IH) simp
    then show ?thesis using True Cons.prems by (simp add: spec_merge_flags_Cons)
  next
    case False
    have "map hd (spec_runs [x] (zip xs (spec_merge_flags (x # xs)))) =
          hd [x] # tl (remdups_adj (x # xs))"
      by (rule Cons.IH) simp
    then show ?thesis using False by (simp add: spec_merge_flags_Cons)
  qed
qed

lemma spec_reduced_distribution_remdups_adj:
  "spec_reduced_distribution (spec_merge_flags d) d = remdups_adj d"
proof (cases d)
  case Nil
  then show ?thesis by (simp add: spec_reduced_distribution_def spec_groups_def)
next
  case (Cons d0 dt)
  then show ?thesis
    using spec_runs_heads [of "[d0]" dt d0]
    by (simp add: spec_reduced_distribution_def spec_groups_def)
qed

lemma no_merge_flag_iff_distinct_adj:
  "True \<notin> set (spec_merge_flags xs) \<longleftrightarrow> distinct_adj xs"
proof (induction xs rule: induct_list012)
  case 1
  then show ?case by (simp add: spec_merge_flags_def)
next
  case (2 x)
  then show ?case by (simp add: spec_merge_flags_def)
next
  case (3 c x xs)
  then show ?case by (auto simp: spec_merge_flags_Cons)
qed

subsection \<open>Collaborative reduction is independent reduction of the paired annotations\<close>

lemma spec_collaborative_flags_zip:
  assumes "length xs = length ys"
  shows "spec_collaborative_flags xs ys = spec_merge_flags (zip xs ys)"
  using assms unfolding spec_collaborative_flags_def spec_merge_flags_def
  by (auto simp: nth_zip)

lemma spec_runs_map:
  "spec_runs (map f cur) (zip (map f xs) fs) = map (map f) (spec_runs cur (zip xs fs))"
proof (induction xs arbitrary: cur fs)
  case Nil
  then show ?case by simp
next
  case (Cons x xs)
  show ?case
  proof (cases fs)
    case Nil
    then show ?thesis by simp
  next
    case (Cons b bs)
    then show ?thesis
      using Cons.IH [of "cur @ [x]" bs] Cons.IH [of "[x]" bs] by simp
  qed
qed

lemma spec_groups_map:
  "spec_groups flags (map f xs) = map (map f) (spec_groups flags xs)"
  using spec_runs_map [of f "[hd xs]" "tl xs" flags]
  by (cases xs) (simp_all add: spec_groups_def)

lemma spec_groups_nonempty: "[] \<notin> set (spec_groups flags xs)"
  by (cases xs) (simp_all add: spec_groups_def spec_runs_nonempty)

lemma spec_reduced_distribution_map:
  "spec_reduced_distribution flags (map f xs) = map f (spec_reduced_distribution flags xs)"
proof -
  have "map (hd \<circ> map f) (spec_groups flags xs) = map (f \<circ> hd) (spec_groups flags xs)"
  proof (rule map_cong [OF refl])
    fix g assume "g \<in> set (spec_groups flags xs)"
    then have "g \<noteq> []" using spec_groups_nonempty [of flags xs] by auto
    then show "(hd \<circ> map f) g = (f \<circ> hd) g" by (simp add: hd_map)
  qed
  then show ?thesis by (simp add: spec_reduced_distribution_def spec_groups_map)
qed

lemma spec_collaborative_reduced_distribution:
  assumes "length xs = length ys"
  shows "spec_reduced_distribution (spec_collaborative_flags xs ys) xs =
           map fst (remdups_adj (zip xs ys))"
    and "spec_reduced_distribution (spec_collaborative_flags xs ys) ys =
           map snd (remdups_adj (zip xs ys))"
proof -
  let ?F = "spec_merge_flags (zip xs ys)"
  have "spec_reduced_distribution ?F (map fst (zip xs ys)) = map fst (remdups_adj (zip xs ys))"
    by (simp only: spec_reduced_distribution_map spec_reduced_distribution_remdups_adj)
  then show "spec_reduced_distribution (spec_collaborative_flags xs ys) xs =
           map fst (remdups_adj (zip xs ys))"
    using assms by (simp add: spec_collaborative_flags_zip)
  have "spec_reduced_distribution ?F (map snd (zip xs ys)) = map snd (remdups_adj (zip xs ys))"
    by (simp only: spec_reduced_distribution_map spec_reduced_distribution_remdups_adj)
  then show "spec_reduced_distribution (spec_collaborative_flags xs ys) ys =
           map snd (remdups_adj (zip xs ys))"
    using assms by (simp add: spec_collaborative_flags_zip)
qed

lemma no_collaborative_merge_of_reduced:
  assumes "length xs = length ys"
  shows "True \<notin> set (spec_collaborative_flags
           (spec_reduced_distribution (spec_collaborative_flags xs ys) xs)
           (spec_reduced_distribution (spec_collaborative_flags xs ys) ys))"
proof -
  let ?R = "remdups_adj (zip xs ys)"
  have "spec_collaborative_flags (map fst ?R) (map snd ?R) = spec_merge_flags (zip (map fst ?R) (map snd ?R))"
    by (rule spec_collaborative_flags_zip) simp
  also have "zip (map fst ?R) (map snd ?R) = ?R" by (simp add: zip_map_fst_snd)
  finally show ?thesis
    using no_merge_flag_iff_distinct_adj [of ?R]
    by (simp add: spec_collaborative_reduced_distribution [OF assms])
qed

lemma no_merge_of_reduced:
  "True \<notin> set (spec_merge_flags (spec_reduced_distribution (spec_merge_flags d) d))"
  by (simp add: spec_reduced_distribution_remdups_adj no_merge_flag_iff_distinct_adj)

lemma no_collaborative_merge_if_no_merge:
  assumes "True \<notin> set (spec_merge_flags xs)"
  shows "True \<notin> set (spec_collaborative_flags xs ys)"
  using assms by (auto simp: spec_collaborative_flags_def spec_merge_flags_def)

subsection \<open>When the collaborative reduction does not return\<close>

lemma CollaborativeParallelAxesReduce_loop_short:
  assumes "i \<le> min (length di) (length dd)" "min (length di) (length dd) < length hi"
  shows "CollaborativeParallelAxesReduce_loop hi ho di dd i acc = Aborted OutOfRange"
  using assms
proof (induction "min (length di) (length dd) - i" arbitrary: i acc)
  case 0
  then have "i = min (length di) (length dd)" by simp
  then have "\<not> (i < length di \<and> i < length dd \<and> i < NumAxes ho)" "i < NumAxes hi"
    using "0.prems" by (auto simp: NumAxes_def)
  then show ?case
    by (cases acc rule: prod.exhaust [where 'a = "int64 list \<times> ParallelDistribution"])
      (auto simp: CollaborativeParallelAxesReduce_loop.simps)
next
  case (Suc n)
  from Suc.hyps(2) have lti: "i < min (length di) (length dd)" by linarith
  then have lt: "i < length di" "i < length dd" "i < NumAxes hi"
    using Suc.prems(2) by (auto simp: NumAxes_def)
  have n: "n = min (length di) (length dd) - Suc i" using Suc.hyps(2) by linarith
  have le: "Suc i \<le> min (length di) (length dd)" using lti by linarith
  obtain a b c d where acc: "acc = ((a, b), (c, d))" by (metis surj_pair)
  have rec: "CollaborativeParallelAxesReduce_loop hi ho di dd (Suc i) acc' = Aborted OutOfRange"
    for acc'
    by (rule Suc.hyps(1) [OF n le Suc.prems(2)])
  show ?case
    unfolding acc
    by (subst CollaborativeParallelAxesReduce_loop.simps) (simp add: lt rec)
qed

lemma CollaborativeParallelAxesReduce_Returned:
  assumes "CollaborativeParallelAxesReduce in_pd out_pd in_d out_d r1 r2 = Returned res"
  shows "desc_hierarchy in_pd \<noteq> []
    \<and> length (desc_hierarchy out_pd) = length (desc_hierarchy in_pd)
    \<and> length (desc_hierarchy in_pd) \<le> length in_d
    \<and> length (desc_hierarchy in_pd) \<le> length out_d"
proof -
  have eq: "length (desc_hierarchy out_pd) = length (desc_hierarchy in_pd)"
    using assms CollaborativeParallelAxesReduce_check [of out_pd in_pd in_d out_d r1 r2]
    by auto
  have ne: "desc_hierarchy in_pd \<noteq> []"
    using assms eq
    by (auto simp: CollaborativeParallelAxesReduce_def Let_def At_def NumAxes_def)
  have "\<not> min (length in_d) (length out_d) < length (desc_hierarchy in_pd)"
  proof
    assume short: "min (length in_d) (length out_d) < length (desc_hierarchy in_pd)"
    show False
    proof (cases "in_d = [] \<or> out_d = []")
      case True
      then show False using assms
        by (auto simp: CollaborativeParallelAxesReduce_def Let_def sbp_parallel_def
            split: outcome.splits if_splits)
    next
      case False
      then have "1 \<le> min (length in_d) (length out_d)"
        by (cases in_d; cases out_d) auto
      then have "CollaborativeParallelAxesReduce_loop (desc_hierarchy in_pd)
          (desc_hierarchy out_pd) in_d out_d 1 acc = Aborted OutOfRange" for acc
        by (rule CollaborativeParallelAxesReduce_loop_short [OF _ short])
      then show False using assms
        by (auto simp: CollaborativeParallelAxesReduce_def Let_def
            split: outcome.splits if_splits)
    qed
  qed
  then show ?thesis using eq ne by auto
qed

lemma ParallelAxesReduce_Returned:
  assumes "ParallelAxesReduce pd d r = Returned res"
  shows "desc_hierarchy pd \<noteq> [] \<and> length (desc_hierarchy pd) \<le> length d"
  using assms ParallelAxesReduce_abort [of pd d r]
  by (cases "desc_hierarchy pd = [] \<or> length d < length (desc_hierarchy pd)") auto

subsection \<open>What a reduction returns is well formed\<close>

lemma spec_runs_not_Nil: "spec_runs cur xs \<noteq> []"
  by (induction cur xs rule: spec_runs.induct) auto

lemma spec_reduced_well_formed:
  assumes "h \<noteq> []" "length d = length h"
  shows "spec_reduced_hierarchy flags h \<noteq> []"
    and "length (spec_reduced_distribution flags d) = length (spec_reduced_hierarchy flags h)"
proof -
  show "spec_reduced_hierarchy flags h \<noteq> []"
    using assms(1)
    by (cases h) (simp_all add: spec_reduced_hierarchy_def spec_groups_def spec_runs_not_Nil)
  have "map length (spec_groups flags d) = map length (spec_groups flags h)"
    by (rule spec_groups_lengths [OF assms(2)])
  then have "length (spec_groups flags d) = length (spec_groups flags h)"
    by (rule map_eq_imp_length_eq)
  then show "length (spec_reduced_distribution flags d) = length (spec_reduced_hierarchy flags h)"
    by (simp add: spec_reduced_distribution_def spec_reduced_hierarchy_def)
qed

subsection \<open>What InOutParallelAxesReduce returns cannot be reduced further\<close>

lemma ParallelAxesReduce_output:
  assumes "ParallelAxesReduce pd d [] = Returned (pd', rd)"
  shows "desc_hierarchy pd' \<noteq> []" and "length rd = length (desc_hierarchy pd')"
    and "True \<notin> set (spec_merge_flags rd)"
proof -
  let ?n = "length (desc_hierarchy pd)"
  let ?F = "spec_merge_flags (take ?n d)"
  have ok: "desc_hierarchy pd \<noteq> []" "?n \<le> length d"
    using ParallelAxesReduce_Returned [OF assms] by simp_all
  have pd': "pd' = ParallelDesc ((parallel_conf pd)\<lparr>hierarchy :=
               spec_reduced_hierarchy ?F (desc_hierarchy pd)\<rparr>)"
    and rd: "rd = spec_reduced_distribution ?F (take ?n d)"
    using assms ParallelAxesReduce_eq [OF ok, of "[]"] by simp_all
  have len: "length (take ?n d) = ?n" using ok(2) by simp
  show "desc_hierarchy pd' \<noteq> []"
    using spec_reduced_well_formed(1) [OF ok(1) len] by (simp add: pd' desc_hierarchy_def)
  show "length rd = length (desc_hierarchy pd')"
    using spec_reduced_well_formed(2) [OF ok(1) len] by (simp add: pd' rd desc_hierarchy_def)
  show "True \<notin> set (spec_merge_flags rd)"
    unfolding rd by (rule no_merge_of_reduced)
qed

lemma CollaborativeParallelAxesReduce_output:
  assumes "CollaborativeParallelAxesReduce in_pd out_pd in_d out_d [] [] =
           Returned ((in_pd', in_rd), (out_pd', out_rd))"
  shows "desc_hierarchy in_pd' \<noteq> []"
    and "length (desc_hierarchy out_pd') = length (desc_hierarchy in_pd')"
    and "length in_rd = length (desc_hierarchy in_pd')"
    and "length out_rd = length (desc_hierarchy in_pd')"
    and "True \<notin> set (spec_collaborative_flags in_rd out_rd)"
proof -
  let ?n = "length (desc_hierarchy in_pd)"
  let ?F = "spec_collaborative_flags (take ?n in_d) (take ?n out_d)"
  have ok: "desc_hierarchy in_pd \<noteq> []" "length (desc_hierarchy out_pd) = ?n"
    "?n \<le> length in_d" "?n \<le> length out_d"
    using CollaborativeParallelAxesReduce_Returned [OF assms] by simp_all
  have out: "in_pd' = ParallelDesc ((parallel_conf in_pd)\<lparr>hierarchy :=
               spec_reduced_hierarchy ?F (desc_hierarchy in_pd)\<rparr>)"
    "out_pd' = ParallelDesc ((parallel_conf out_pd)\<lparr>hierarchy :=
               spec_reduced_hierarchy ?F (desc_hierarchy out_pd)\<rparr>)"
    "in_rd = spec_reduced_distribution ?F (take ?n in_d)"
    "out_rd = spec_reduced_distribution ?F (take ?n out_d)"
    using assms CollaborativeParallelAxesReduce_eq [OF ok, of "[]" "[]"] by simp_all
  have len: "length (take ?n in_d) = ?n" "length (take ?n out_d) = ?n"
    using ok(3,4) by simp_all
  have ne_out: "desc_hierarchy out_pd \<noteq> []" using ok(1,2) by auto
  have len_out: "length (take ?n in_d) = length (desc_hierarchy out_pd)"
    "length (take ?n out_d) = length (desc_hierarchy out_pd)"
    using len ok(2) by simp_all
  show "desc_hierarchy in_pd' \<noteq> []"
    using spec_reduced_well_formed(1) [OF ok(1) len(1)] by (simp add: out desc_hierarchy_def)
  show a: "length in_rd = length (desc_hierarchy in_pd')"
    using spec_reduced_well_formed(2) [OF ok(1) len(1)] by (simp add: out desc_hierarchy_def)
  have b: "length in_rd = length (desc_hierarchy out_pd')"
    using spec_reduced_well_formed(2) [OF ne_out len_out(1)] by (simp add: out desc_hierarchy_def)
  show "length (desc_hierarchy out_pd') = length (desc_hierarchy in_pd')"
    using a b by simp
  show "length out_rd = length (desc_hierarchy in_pd')"
    using spec_reduced_well_formed(2) [OF ok(1) len(2)] by (simp add: out desc_hierarchy_def)
  show "True \<notin> set (spec_collaborative_flags in_rd out_rd)"
    unfolding out by (rule no_collaborative_merge_of_reduced) (simp only: len)
qed

lemma InOutParallelAxesReduce_already_reduced:
  assumes "desc_hierarchy in_pd \<noteq> []" and "desc_hierarchy out_pd \<noteq> []"
    and "length in_d = length (desc_hierarchy in_pd)"
    and "length out_d = length (desc_hierarchy out_pd)"
    and "spec_already_reduced (desc_hierarchy in_pd) (desc_hierarchy out_pd) in_d out_d"
  shows "InOutParallelAxesReduce in_pd out_pd in_d out_d [] [] =
         Returned ((in_pd, in_d), (out_pd, out_d))"
proof -
  consider
      (one) "length (desc_hierarchy in_pd) = 1 \<and> length (desc_hierarchy out_pd) = 1"
    | (differ) "length (desc_hierarchy in_pd) \<noteq> length (desc_hierarchy out_pd)"
    | (equal) "length (desc_hierarchy in_pd) = length (desc_hierarchy out_pd)"
        "\<not> (length (desc_hierarchy in_pd) = 1 \<and> length (desc_hierarchy out_pd) = 1)"
    by blast
  then show ?thesis
  proof cases
    case one
    then show ?thesis by (simp add: InOutParallelAxesReduce_def NumAxes_def Let_def)
  next
    case differ
    then have "True \<notin> set (spec_merge_flags in_d)" "True \<notin> set (spec_merge_flags out_d)"
      using assms(5) by (auto simp: spec_already_reduced_def split: if_splits)
    then have "ParallelAxesReduce in_pd in_d [] = Returned (in_pd, in_d)"
      "ParallelAxesReduce out_pd out_d [] = Returned (out_pd, out_d)"
      using assms(1-4) by (simp_all add: ParallelAxesReduce_already_reduced)
    then show ?thesis using differ
      by (auto simp: InOutParallelAxesReduce_def NumAxes_def Let_def)
  next
    case equal
    then have "True \<notin> set (spec_collaborative_flags in_d out_d)"
      using assms(5) by (auto simp: spec_already_reduced_def split: if_splits)
    then have "CollaborativeParallelAxesReduce in_pd out_pd in_d out_d [] [] =
         Returned ((in_pd, in_d), (out_pd, out_d))"
      using assms(1-4) equal(1)
      by (intro CollaborativeParallelAxesReduce_already_reduced) simp_all
    then show ?thesis using equal
      by (auto simp: InOutParallelAxesReduce_def NumAxes_def Let_def)
  qed
qed

lemma InOutParallelAxesReduce_output_reduced:
  assumes "InOutParallelAxesReduce in_pd out_pd in_d out_d [] [] =
           Returned ((in_pd', in_rd), (out_pd', out_rd))"
    and "\<not> (NumAxes (desc_hierarchy in_pd) = 1 \<and> NumAxes (desc_hierarchy out_pd) = 1)"
  shows "desc_hierarchy in_pd' \<noteq> []" and "desc_hierarchy out_pd' \<noteq> []"
    and "length in_rd = length (desc_hierarchy in_pd')"
    and "length out_rd = length (desc_hierarchy out_pd')"
    and "spec_already_reduced (desc_hierarchy in_pd') (desc_hierarchy out_pd') in_rd out_rd"
proof -
  have "desc_hierarchy in_pd' \<noteq> [] \<and> desc_hierarchy out_pd' \<noteq> []
    \<and> length in_rd = length (desc_hierarchy in_pd')
    \<and> length out_rd = length (desc_hierarchy out_pd')
    \<and> spec_already_reduced (desc_hierarchy in_pd') (desc_hierarchy out_pd') in_rd out_rd"
  proof (cases "NumAxes (desc_hierarchy in_pd) \<noteq> NumAxes (desc_hierarchy out_pd)")
    case True
    then have sel: "InOutParallelAxesReduce in_pd out_pd in_d out_d [] [] =
        (case ParallelAxesReduce in_pd in_d [] of
           Aborted a \<Rightarrow> Aborted a
         | Returned r_in \<Rightarrow>
            (case ParallelAxesReduce out_pd out_d [] of
               Aborted a \<Rightarrow> Aborted a
             | Returned r_out \<Rightarrow> Returned (r_in, r_out)))"
      by (auto simp: InOutParallelAxesReduce_def Let_def)
    have "ParallelAxesReduce in_pd in_d [] = Returned (in_pd', in_rd)"
      "ParallelAxesReduce out_pd out_d [] = Returned (out_pd', out_rd)"
      using assms(1) unfolding sel by (auto split: outcome.splits)
    note i = ParallelAxesReduce_output [OF this(1)] and out = ParallelAxesReduce_output [OF this(2)]
    have "spec_already_reduced (desc_hierarchy in_pd') (desc_hierarchy out_pd') in_rd out_rd"
      using i(3) out(3) no_collaborative_merge_if_no_merge [OF i(3), of out_rd]
      by (simp add: spec_already_reduced_def)
    then show ?thesis using i out by simp
  next
    case False
    then have sel: "InOutParallelAxesReduce in_pd out_pd in_d out_d [] [] =
        CollaborativeParallelAxesReduce in_pd out_pd in_d out_d [] []"
      using assms(2) by (auto simp: InOutParallelAxesReduce_def Let_def)
    have "CollaborativeParallelAxesReduce in_pd out_pd in_d out_d [] [] =
           Returned ((in_pd', in_rd), (out_pd', out_rd))"
      using assms(1) unfolding sel .
    note c = CollaborativeParallelAxesReduce_output [OF this]
    have "spec_already_reduced (desc_hierarchy in_pd') (desc_hierarchy out_pd') in_rd out_rd"
      using c(2,5) by (simp add: spec_already_reduced_def)
    then show ?thesis using c by auto
  qed
  then show "desc_hierarchy in_pd' \<noteq> []" and "desc_hierarchy out_pd' \<noteq> []"
    and "length in_rd = length (desc_hierarchy in_pd')"
    and "length out_rd = length (desc_hierarchy out_pd')"
    and "spec_already_reduced (desc_hierarchy in_pd') (desc_hierarchy out_pd') in_rd out_rd"
    by simp_all
qed

subsection \<open>Products of extents that do not wrap around\<close>

lemma unat_prod_list:
  fixes xs :: "int64 list"
  assumes "prod_list (map unat xs) < 2 ^ 64"
  shows "unat (prod_list xs) = prod_list (map unat xs)"
  using assms
proof (induction xs)
  case Nil
  then show ?case by simp
next
  case (Cons x xs)
  show ?case
  proof (cases "unat x = 0")
    case True
    then have "x = 0" by (simp add: unat_eq_0)
    then show ?thesis by simp
  next
    case False
    then have le: "prod_list (map unat xs) \<le> unat x * prod_list (map unat xs)" by simp
    have "prod_list (map unat xs) < 2 ^ 64"
      by (rule le_less_trans [OF le]) (use Cons.prems in simp)
    then have ih: "unat (prod_list xs) = prod_list (map unat xs)" by (rule Cons.IH)
    have "unat x * unat (prod_list xs) < 2 ^ LENGTH(64)" using Cons.prems ih by simp
    then have "unat (x * prod_list xs) = unat x * unat (prod_list xs)"
      by (simp only: unat_mult_lem)
    then show ?thesis using ih by simp
  qed
qed

lemma unat_prod_list_groups:
  fixes G :: "int64 list list"
  assumes "prod_list (map unat (concat G)) < 2 ^ 64"
  shows "prod_list (map unat (map prod_list G)) = prod_list (map unat (concat G))"
  using assms
proof (induction G)
  case Nil
  then show ?case by simp
next
  case (Cons g G)
  let ?Pg = "prod_list (map unat g)" and ?Pr = "prod_list (map unat (concat G))"
  have total: "?Pg * ?Pr < 2 ^ 64" using Cons.prems by simp
  show ?case
  proof (cases "?Pr = 0")
    case True
    then have "prod_list (map unat (map prod_list G)) = 0" using Cons.IH by simp
    then show ?thesis using True by simp
  next
    case rest: False
    then have le: "?Pg \<le> ?Pg * ?Pr" by simp
    have "?Pg < 2 ^ 64" by (rule le_less_trans [OF le total])
    then have ug: "unat (prod_list g) = ?Pg" by (rule unat_prod_list)
    show ?thesis
    proof (cases "?Pg = 0")
      case True
      then show ?thesis using ug by simp
    next
      case False
      then have le': "?Pr \<le> ?Pg * ?Pr" by simp
      have "?Pr < 2 ^ 64" by (rule le_less_trans [OF le' total])
      then have "prod_list (map unat (map prod_list G)) = ?Pr" by (rule Cons.IH)
      then show ?thesis using ug by simp
    qed
  qed
qed

lemma spec_reduced_hierarchy_unat_prod:
  assumes "length h \<le> Suc (length flags)" "prod_list (map unat h) < 2 ^ 64"
  shows "prod_list (map unat (spec_reduced_hierarchy flags h)) = prod_list (map unat h)"
  using unat_prod_list_groups [of "spec_groups flags h"] assms
  by (simp add: spec_reduced_hierarchy_def spec_groups_concat)

section \<open>Independent reduction\<close>

text \<open>
  C3. Independent reduction scans the axes from axis 0 and merges axis \<open>i\<close> into the current
  group if and only if its annotation equals that of axis \<open>i - 1\<close> (\<open>spec_merge_flags\<close>);
  the extent of each output axis is the product of the extents of its group, and its
  annotation is that of the group's first axis. The function returns exactly that whenever
  the hierarchy is not empty and the distribution has an annotation for each of its axes;
  the annotations are appended to what the out-parameter held. The returned annotations are
  the original ones with adjacent repetitions removed.
\<close>

theorem ParallelAxesReduce_merges_equal_neighbours:
  fixes pd :: ParallelDesc and d :: ParallelDistribution
  assumes "desc_hierarchy pd \<noteq> []" and "length (desc_hierarchy pd) \<le> length d"
  defines "n \<equiv> length (desc_hierarchy pd)"
  defines "flags \<equiv> spec_merge_flags (take n d)"
  shows "ParallelAxesReduce pd d ret0 =
     Returned
       (ParallelDesc ((parallel_conf pd)\<lparr>hierarchy :=
          map prod_list (spec_groups flags (desc_hierarchy pd))\<rparr>),
        ret0 @ map hd (spec_groups flags (take n d)))
   \<and> map hd (spec_groups flags (take n d)) = remdups_adj (take n d)"
proof
  show "ParallelAxesReduce pd d ret0 =
     Returned
       (ParallelDesc ((parallel_conf pd)\<lparr>hierarchy :=
          map prod_list (spec_groups flags (desc_hierarchy pd))\<rparr>),
        ret0 @ map hd (spec_groups flags (take n d)))"
    unfolding flags_def n_def
    using ParallelAxesReduce_eq [OF assms(1,2), of ret0]
    by (simp only: spec_reduced_hierarchy_def spec_reduced_distribution_def)
  show "map hd (spec_groups flags (take n d)) = remdups_adj (take n d)"
    unfolding flags_def
    using spec_reduced_distribution_remdups_adj [of "take n d"]
    by (simp only: spec_reduced_distribution_def)
qed

theorem ParallelAxesReduce_merges_equal_neighbours_witness:
  "ParallelAxesReduce
     (ParallelDesc \<lparr>device_name = [''0:0-11''], device_tag = ''gpu'', hierarchy = [2, 2, 3]\<rparr>)
     [SplitParallel 0, SplitParallel 0, BroadcastParallel] [] =
   Returned
     (ParallelDesc \<lparr>device_name = [''0:0-11''], device_tag = ''gpu'', hierarchy = [4, 3]\<rparr>,
      [SplitParallel 0, BroadcastParallel])"
  using ParallelAxesReduce_merges_equal_neighbours
    [of "ParallelDesc \<lparr>device_name = [''0:0-11''], device_tag = ''gpu'', hierarchy = [2, 2, 3]\<rparr>"
        "[SplitParallel 0, SplitParallel 0, BroadcastParallel]" "[]"]
  by (simp add: desc_hierarchy_def spec_groups_def spec_merge_flags_def)

section \<open>Collaborative reduction\<close>

text \<open>
  C4. Given hierarchies of equal rank, collaborative reduction merges axis \<open>i\<close> into the
  current group if and only if the producer annotation at \<open>i\<close> equals that at \<open>i - 1\<close> and
  the consumer annotation at \<open>i\<close> equals that at \<open>i - 1\<close> (\<open>spec_collaborative_flags\<close>);
  otherwise both sides start a new group. Both sides are grouped by the same flags, so the
  two reduced hierarchies have equal rank. The pairs of returned annotations are the pairs
  of original annotations with adjacent repetitions removed.
\<close>

theorem CollaborativeParallelAxesReduce_merges_where_both_agree:
  fixes in_pd out_pd :: ParallelDesc and in_d out_d :: ParallelDistribution
  assumes "desc_hierarchy in_pd \<noteq> []"
    and "length (desc_hierarchy out_pd) = length (desc_hierarchy in_pd)"
    and "length (desc_hierarchy in_pd) \<le> length in_d"
    and "length (desc_hierarchy in_pd) \<le> length out_d"
  defines "n \<equiv> length (desc_hierarchy in_pd)"
  defines "flags \<equiv> spec_collaborative_flags (take n in_d) (take n out_d)"
  shows "CollaborativeParallelAxesReduce in_pd out_pd in_d out_d in_ret0 out_ret0 =
     Returned
       ((ParallelDesc ((parallel_conf in_pd)\<lparr>hierarchy :=
           map prod_list (spec_groups flags (desc_hierarchy in_pd))\<rparr>),
         in_ret0 @ map hd (spec_groups flags (take n in_d))),
        (ParallelDesc ((parallel_conf out_pd)\<lparr>hierarchy :=
           map prod_list (spec_groups flags (desc_hierarchy out_pd))\<rparr>),
         out_ret0 @ map hd (spec_groups flags (take n out_d))))
   \<and> length (map prod_list (spec_groups flags (desc_hierarchy in_pd))) =
     length (map prod_list (spec_groups flags (desc_hierarchy out_pd)))
   \<and> zip (map hd (spec_groups flags (take n in_d))) (map hd (spec_groups flags (take n out_d))) =
     remdups_adj (zip (take n in_d) (take n out_d))"
proof (intro conjI)
  show "CollaborativeParallelAxesReduce in_pd out_pd in_d out_d in_ret0 out_ret0 =
     Returned
       ((ParallelDesc ((parallel_conf in_pd)\<lparr>hierarchy :=
           map prod_list (spec_groups flags (desc_hierarchy in_pd))\<rparr>),
         in_ret0 @ map hd (spec_groups flags (take n in_d))),
        (ParallelDesc ((parallel_conf out_pd)\<lparr>hierarchy :=
           map prod_list (spec_groups flags (desc_hierarchy out_pd))\<rparr>),
         out_ret0 @ map hd (spec_groups flags (take n out_d))))"
    unfolding flags_def n_def
    using CollaborativeParallelAxesReduce_eq [OF assms(1-4), of in_ret0 out_ret0]
    by (simp only: spec_reduced_hierarchy_def spec_reduced_distribution_def)
  have "map length (spec_groups flags (desc_hierarchy in_pd)) =
        map length (spec_groups flags (desc_hierarchy out_pd))"
    by (rule spec_groups_lengths) (simp add: assms(2))
  then have "length (spec_groups flags (desc_hierarchy in_pd)) =
             length (spec_groups flags (desc_hierarchy out_pd))"
    by (rule map_eq_imp_length_eq)
  then show "length (map prod_list (spec_groups flags (desc_hierarchy in_pd))) =
     length (map prod_list (spec_groups flags (desc_hierarchy out_pd)))"
    by simp
  have len: "length (take n in_d) = length (take n out_d)"
    using assms(3,4) by (simp add: n_def)
  show "zip (map hd (spec_groups flags (take n in_d))) (map hd (spec_groups flags (take n out_d))) =
     remdups_adj (zip (take n in_d) (take n out_d))"
    unfolding flags_def
    using spec_collaborative_reduced_distribution [OF len]
    by (simp add: spec_reduced_distribution_def zip_map_fst_snd)
qed

theorem CollaborativeParallelAxesReduce_merges_where_both_agree_witness:
  "CollaborativeParallelAxesReduce
     (ParallelDesc \<lparr>device_name = [''0:0-7''], device_tag = ''gpu'', hierarchy = [2, 2, 2]\<rparr>)
     (ParallelDesc \<lparr>device_name = [''1:0-7''], device_tag = ''gpu'', hierarchy = [2, 2, 2]\<rparr>)
     [SplitParallel 0, SplitParallel 0, SplitParallel 0]
     [SplitParallel 0, BroadcastParallel, BroadcastParallel] [] [] =
   Returned
     ((ParallelDesc \<lparr>device_name = [''0:0-7''], device_tag = ''gpu'', hierarchy = [2, 4]\<rparr>,
       [SplitParallel 0, SplitParallel 0]),
      (ParallelDesc \<lparr>device_name = [''1:0-7''], device_tag = ''gpu'', hierarchy = [2, 4]\<rparr>,
       [SplitParallel 0, BroadcastParallel]))"
  using CollaborativeParallelAxesReduce_merges_where_both_agree
    [of "ParallelDesc \<lparr>device_name = [''0:0-7''], device_tag = ''gpu'', hierarchy = [2, 2, 2]\<rparr>"
        "ParallelDesc \<lparr>device_name = [''1:0-7''], device_tag = ''gpu'', hierarchy = [2, 2, 2]\<rparr>"
        "[SplitParallel 0, SplitParallel 0, SplitParallel 0]"
        "[SplitParallel 0, BroadcastParallel, BroadcastParallel]" "[]" "[]"]
  by (simp add: desc_hierarchy_def spec_groups_def spec_collaborative_flags_def)

section \<open>What a reduction preserves\<close>

text \<open>
  C7. The reduced hierarchy has the same extent product as the original one: as products
  of 64-bit extents, which is how the machine computes them, and as products of numbers
  whenever the product of the original extents fits in 64 bits. Repeating each reduced
  annotation as many times as its reduced axis absorbed original axes (\<open>spec_run_lengths\<close>)
  gives back the original annotations, one per axis. This holds for independent reduction
  and for both sides of collaborative reduction, on every hierarchy that is not empty and
  has one annotation per axis.
\<close>

theorem reduction_preserves_product_and_annotations:
  fixes pd in_pd out_pd :: ParallelDesc and d in_d out_d :: ParallelDistribution
  assumes "desc_hierarchy pd \<noteq> []" and "length d = length (desc_hierarchy pd)"
    and "desc_hierarchy in_pd \<noteq> []"
    and "length (desc_hierarchy out_pd) = length (desc_hierarchy in_pd)"
    and "length in_d = length (desc_hierarchy in_pd)"
    and "length out_d = length (desc_hierarchy in_pd)"
  shows "(\<exists>pd' rd. ParallelAxesReduce pd d ret0 = Returned (pd', ret0 @ rd)
            \<and> prod_list (desc_hierarchy pd') = prod_list (desc_hierarchy pd)
            \<and> (prod_list (map unat (desc_hierarchy pd)) < 2 ^ 64 \<longrightarrow>
                 prod_list (map unat (desc_hierarchy pd')) = prod_list (map unat (desc_hierarchy pd)))
            \<and> length rd = length (desc_hierarchy pd')
            \<and> length rd = length (spec_run_lengths (spec_merge_flags d) (length d))
            \<and> concat (map2 replicate (spec_run_lengths (spec_merge_flags d) (length d)) rd) = d)
       \<and> (\<exists>in_pd' in_rd out_pd' out_rd.
            CollaborativeParallelAxesReduce in_pd out_pd in_d out_d in_ret0 out_ret0 =
              Returned ((in_pd', in_ret0 @ in_rd), (out_pd', out_ret0 @ out_rd))
            \<and> prod_list (desc_hierarchy in_pd') = prod_list (desc_hierarchy in_pd)
            \<and> prod_list (desc_hierarchy out_pd') = prod_list (desc_hierarchy out_pd)
            \<and> (prod_list (map unat (desc_hierarchy in_pd)) < 2 ^ 64 \<longrightarrow>
                 prod_list (map unat (desc_hierarchy in_pd')) =
                 prod_list (map unat (desc_hierarchy in_pd)))
            \<and> (prod_list (map unat (desc_hierarchy out_pd)) < 2 ^ 64 \<longrightarrow>
                 prod_list (map unat (desc_hierarchy out_pd')) =
                 prod_list (map unat (desc_hierarchy out_pd)))
            \<and> length in_rd = length (desc_hierarchy in_pd')
            \<and> length out_rd = length (desc_hierarchy out_pd')
            \<and> length in_rd = length (spec_run_lengths (spec_collaborative_flags in_d out_d) (length in_d))
            \<and> length out_rd = length (spec_run_lengths (spec_collaborative_flags in_d out_d) (length in_d))
            \<and> concat (map2 replicate
                  (spec_run_lengths (spec_collaborative_flags in_d out_d) (length in_d)) in_rd) = in_d
            \<and> concat (map2 replicate
                  (spec_run_lengths (spec_collaborative_flags in_d out_d) (length in_d)) out_rd) = out_d)"
proof
  let ?h = "desc_hierarchy pd" and ?F = "spec_merge_flags d"
  have tk: "take (length ?h) d = d" using assms(2) by simp
  have lenF: "length ?F = length d - 1" by (simp add: spec_merge_flags_def)
  have red: "ParallelAxesReduce pd d ret0 =
      Returned (ParallelDesc ((parallel_conf pd)\<lparr>hierarchy := spec_reduced_hierarchy ?F ?h\<rparr>),
                ret0 @ spec_reduced_distribution ?F d)"
    using ParallelAxesReduce_eq [of pd d ret0] assms(1,2) by (simp add: tk)
  have prod: "prod_list (spec_reduced_hierarchy ?F ?h) = prod_list ?h"
    unfolding spec_reduced_hierarchy_def
    by (rule spec_groups_prod) (simp add: lenF assms(2) [symmetric])
  have nat_prod: "prod_list (map unat ?h) < 2 ^ 64 \<longrightarrow>
      prod_list (map unat (spec_reduced_hierarchy ?F ?h)) = prod_list (map unat ?h)"
    using spec_reduced_hierarchy_unat_prod [of ?h ?F] by (simp add: lenF assms(2) [symmetric])
  have lens: "map length (spec_groups ?F d) = map length (spec_groups ?F ?h)"
    "map length (spec_groups ?F [0..<length d]) = map length (spec_groups ?F d)"
    by (rule spec_groups_lengths, simp add: assms(2))+
  have l1: "length (spec_reduced_distribution ?F d) = length (spec_reduced_hierarchy ?F ?h)"
    using map_eq_imp_length_eq [OF lens(1)]
    by (simp add: spec_reduced_distribution_def spec_reduced_hierarchy_def)
  have l2: "length (spec_reduced_distribution ?F d) = length (spec_run_lengths ?F (length d))"
    using map_eq_imp_length_eq [OF lens(2)]
    by (simp add: spec_reduced_distribution_def spec_run_lengths_def)
  have ex: "concat (map2 replicate (spec_run_lengths ?F (length d))
              (spec_reduced_distribution ?F d)) = d"
    by (rule spec_groups_expand [OF _ spec_merge_flags_sound]) (simp add: lenF)
  show "\<exists>pd' rd. ParallelAxesReduce pd d ret0 = Returned (pd', ret0 @ rd)
            \<and> prod_list (desc_hierarchy pd') = prod_list (desc_hierarchy pd)
            \<and> (prod_list (map unat (desc_hierarchy pd)) < 2 ^ 64 \<longrightarrow>
                 prod_list (map unat (desc_hierarchy pd')) = prod_list (map unat (desc_hierarchy pd)))
            \<and> length rd = length (desc_hierarchy pd')
            \<and> length rd = length (spec_run_lengths (spec_merge_flags d) (length d))
            \<and> concat (map2 replicate (spec_run_lengths (spec_merge_flags d) (length d)) rd) = d"
    using red prod nat_prod l1 l2 ex by (simp add: desc_hierarchy_def)
next
  let ?hi = "desc_hierarchy in_pd" and ?ho = "desc_hierarchy out_pd"
    and ?F = "spec_collaborative_flags in_d out_d"
  have tk: "take (length ?hi) in_d = in_d" "take (length ?hi) out_d = out_d"
    using assms(5,6) by simp_all
  have lenF: "length ?F = length in_d - 1" by (simp add: spec_collaborative_flags_def)
  have red: "CollaborativeParallelAxesReduce in_pd out_pd in_d out_d in_ret0 out_ret0 =
      Returned
        ((ParallelDesc ((parallel_conf in_pd)\<lparr>hierarchy := spec_reduced_hierarchy ?F ?hi\<rparr>),
          in_ret0 @ spec_reduced_distribution ?F in_d),
         (ParallelDesc ((parallel_conf out_pd)\<lparr>hierarchy := spec_reduced_hierarchy ?F ?ho\<rparr>),
          out_ret0 @ spec_reduced_distribution ?F out_d))"
    using CollaborativeParallelAxesReduce_eq [of in_pd out_pd in_d out_d in_ret0 out_ret0]
      assms(3-6) by (simp add: tk)
  have prod_in: "prod_list (spec_reduced_hierarchy ?F ?hi) = prod_list ?hi"
    unfolding spec_reduced_hierarchy_def
    by (rule spec_groups_prod) (simp add: lenF assms(5))
  have prod_out: "prod_list (spec_reduced_hierarchy ?F ?ho) = prod_list ?ho"
    unfolding spec_reduced_hierarchy_def
    by (rule spec_groups_prod) (simp add: lenF assms(4,5))
  have nat_prod_in: "prod_list (map unat ?hi) < 2 ^ 64 \<longrightarrow>
      prod_list (map unat (spec_reduced_hierarchy ?F ?hi)) = prod_list (map unat ?hi)"
    using spec_reduced_hierarchy_unat_prod [of ?hi ?F] by (simp add: lenF assms(5))
  have nat_prod_out: "prod_list (map unat ?ho) < 2 ^ 64 \<longrightarrow>
      prod_list (map unat (spec_reduced_hierarchy ?F ?ho)) = prod_list (map unat ?ho)"
    using spec_reduced_hierarchy_unat_prod [of ?ho ?F] by (simp add: lenF assms(4,5))
  have lens: "map length (spec_groups ?F in_d) = map length (spec_groups ?F ?hi)"
    "map length (spec_groups ?F out_d) = map length (spec_groups ?F ?ho)"
    "map length (spec_groups ?F [0..<length in_d]) = map length (spec_groups ?F in_d)"
    "map length (spec_groups ?F [0..<length in_d]) = map length (spec_groups ?F out_d)"
    by (rule spec_groups_lengths, simp add: assms(4-6))+
  have l1: "length (spec_reduced_distribution ?F in_d) = length (spec_reduced_hierarchy ?F ?hi)"
    "length (spec_reduced_distribution ?F out_d) = length (spec_reduced_hierarchy ?F ?ho)"
    using map_eq_imp_length_eq [OF lens(1)] map_eq_imp_length_eq [OF lens(2)]
    by (simp_all add: spec_reduced_distribution_def spec_reduced_hierarchy_def)
  have l2: "length (spec_reduced_distribution ?F in_d) = length (spec_run_lengths ?F (length in_d))"
    "length (spec_reduced_distribution ?F out_d) = length (spec_run_lengths ?F (length in_d))"
    using map_eq_imp_length_eq [OF lens(3)] map_eq_imp_length_eq [OF lens(4)]
    by (simp_all add: spec_reduced_distribution_def spec_run_lengths_def)
  have ex_in: "concat (map2 replicate (spec_run_lengths ?F (length in_d))
              (spec_reduced_distribution ?F in_d)) = in_d"
    by (rule spec_groups_expand [OF _ spec_collaborative_flags_sound_in]) (simp add: lenF)
  have "concat (map2 replicate (spec_run_lengths ?F (length out_d))
              (spec_reduced_distribution ?F out_d)) = out_d"
    by (rule spec_groups_expand [OF _ spec_collaborative_flags_sound_out])
      (simp add: lenF assms(5,6))
  then have ex_out: "concat (map2 replicate (spec_run_lengths ?F (length in_d))
              (spec_reduced_distribution ?F out_d)) = out_d"
    by (simp add: assms(5,6))
  show "\<exists>in_pd' in_rd out_pd' out_rd.
            CollaborativeParallelAxesReduce in_pd out_pd in_d out_d in_ret0 out_ret0 =
              Returned ((in_pd', in_ret0 @ in_rd), (out_pd', out_ret0 @ out_rd))
            \<and> prod_list (desc_hierarchy in_pd') = prod_list (desc_hierarchy in_pd)
            \<and> prod_list (desc_hierarchy out_pd') = prod_list (desc_hierarchy out_pd)
            \<and> (prod_list (map unat (desc_hierarchy in_pd)) < 2 ^ 64 \<longrightarrow>
                 prod_list (map unat (desc_hierarchy in_pd')) =
                 prod_list (map unat (desc_hierarchy in_pd)))
            \<and> (prod_list (map unat (desc_hierarchy out_pd)) < 2 ^ 64 \<longrightarrow>
                 prod_list (map unat (desc_hierarchy out_pd')) =
                 prod_list (map unat (desc_hierarchy out_pd)))
            \<and> length in_rd = length (desc_hierarchy in_pd')
            \<and> length out_rd = length (desc_hierarchy out_pd')
            \<and> length in_rd = length (spec_run_lengths (spec_collaborative_flags in_d out_d) (length in_d))
            \<and> length out_rd = length (spec_run_lengths (spec_collaborative_flags in_d out_d) (length in_d))
            \<and> concat (map2 replicate
                  (spec_run_lengths (spec_collaborative_flags in_d out_d) (length in_d)) in_rd) = in_d
            \<and> concat (map2 replicate
                  (spec_run_lengths (spec_collaborative_flags in_d out_d) (length in_d)) out_rd) = out_d"
    using red prod_in prod_out nat_prod_in nat_prod_out l1 l2 ex_in ex_out
    by (simp add: desc_hierarchy_def)
qed

theorem reduction_preserves_product_and_annotations_witness:
  "(\<exists>pd' rd.
      ParallelAxesReduce
        (ParallelDesc \<lparr>device_name = [''0:0-11''], device_tag = ''gpu'', hierarchy = [2, 2, 3]\<rparr>)
        [SplitParallel 0, SplitParallel 0, BroadcastParallel] [] = Returned (pd', rd)
      \<and> prod_list (desc_hierarchy pd') = 12
      \<and> prod_list (map unat (desc_hierarchy pd')) = 12
      \<and> length rd = length (desc_hierarchy pd')
      \<and> concat (map2 replicate
            (spec_run_lengths
               (spec_merge_flags [SplitParallel 0, SplitParallel 0, BroadcastParallel]) 3) rd) =
          [SplitParallel 0, SplitParallel 0, BroadcastParallel])
   \<and> (\<exists>in_pd' in_rd out_pd' out_rd.
      CollaborativeParallelAxesReduce
        (ParallelDesc \<lparr>device_name = [''0:0-7''], device_tag = ''gpu'', hierarchy = [2, 2, 2]\<rparr>)
        (ParallelDesc \<lparr>device_name = [''1:0-7''], device_tag = ''gpu'', hierarchy = [2, 2, 2]\<rparr>)
        [SplitParallel 0, SplitParallel 0, SplitParallel 0]
        [SplitParallel 0, BroadcastParallel, BroadcastParallel] [] [] =
        Returned ((in_pd', in_rd), (out_pd', out_rd))
      \<and> prod_list (desc_hierarchy in_pd') = 8
      \<and> prod_list (desc_hierarchy out_pd') = 8
      \<and> concat (map2 replicate
            (spec_run_lengths
               (spec_collaborative_flags [SplitParallel 0, SplitParallel 0, SplitParallel 0]
                  [SplitParallel 0, BroadcastParallel, BroadcastParallel]) 3) in_rd) =
          [SplitParallel 0, SplitParallel 0, SplitParallel 0]
      \<and> concat (map2 replicate
            (spec_run_lengths
               (spec_collaborative_flags [SplitParallel 0, SplitParallel 0, SplitParallel 0]
                  [SplitParallel 0, BroadcastParallel, BroadcastParallel]) 3) out_rd) =
          [SplitParallel 0, BroadcastParallel, BroadcastParallel])"
proof -
  let ?pd = "ParallelDesc \<lparr>device_name = [''0:0-11''], device_tag = ''gpu'', hierarchy = [2, 2, 3]\<rparr>"
  let ?d = "[SplitParallel 0, SplitParallel 0, BroadcastParallel]"
  let ?in_pd = "ParallelDesc \<lparr>device_name = [''0:0-7''], device_tag = ''gpu'', hierarchy = [2, 2, 2]\<rparr>"
  let ?out_pd = "ParallelDesc \<lparr>device_name = [''1:0-7''], device_tag = ''gpu'', hierarchy = [2, 2, 2]\<rparr>"
  let ?in_d = "[SplitParallel 0, SplitParallel 0, SplitParallel 0]"
  let ?out_d = "[SplitParallel 0, BroadcastParallel, BroadcastParallel]"
  have h: "desc_hierarchy ?pd \<noteq> []" "length ?d = length (desc_hierarchy ?pd)"
    "desc_hierarchy ?in_pd \<noteq> []"
    "length (desc_hierarchy ?out_pd) = length (desc_hierarchy ?in_pd)"
    "length ?in_d = length (desc_hierarchy ?in_pd)"
    "length ?out_d = length (desc_hierarchy ?in_pd)"
    by (simp_all add: desc_hierarchy_def)
  have three: "length ?d = 3" "length ?in_d = 3" by simp_all
  have small: "prod_list (map unat (desc_hierarchy ?pd)) < 2 ^ 64"
    by (simp add: desc_hierarchy_def)
  have p12: "prod_list (desc_hierarchy ?pd) = 12" "prod_list (map unat (desc_hierarchy ?pd)) = 12"
    "prod_list (desc_hierarchy ?in_pd) = 8" "prod_list (desc_hierarchy ?out_pd) = 8"
    by (simp_all add: desc_hierarchy_def)
  note t = reduction_preserves_product_and_annotations [OF h, of "[]" "[]" "[]"]
  from t [THEN conjunct1] obtain pd' rd where a:
    "ParallelAxesReduce ?pd ?d [] = Returned (pd', [] @ rd)"
    "prod_list (desc_hierarchy pd') = prod_list (desc_hierarchy ?pd)"
    "prod_list (map unat (desc_hierarchy ?pd)) < 2 ^ 64 \<longrightarrow>
       prod_list (map unat (desc_hierarchy pd')) = prod_list (map unat (desc_hierarchy ?pd))"
    "length rd = length (desc_hierarchy pd')"
    "concat (map2 replicate (spec_run_lengths (spec_merge_flags ?d) (length ?d)) rd) = ?d"
    by blast
  from t [THEN conjunct2] obtain in_pd' in_rd out_pd' out_rd where b:
    "CollaborativeParallelAxesReduce ?in_pd ?out_pd ?in_d ?out_d [] [] =
       Returned ((in_pd', [] @ in_rd), (out_pd', [] @ out_rd))"
    "prod_list (desc_hierarchy in_pd') = prod_list (desc_hierarchy ?in_pd)"
    "prod_list (desc_hierarchy out_pd') = prod_list (desc_hierarchy ?out_pd)"
    "concat (map2 replicate
       (spec_run_lengths (spec_collaborative_flags ?in_d ?out_d) (length ?in_d)) in_rd) = ?in_d"
    "concat (map2 replicate
       (spec_run_lengths (spec_collaborative_flags ?in_d ?out_d) (length ?in_d)) out_rd) = ?out_d"
    by blast
  have first: "\<exists>pd' rd.
      ParallelAxesReduce ?pd ?d [] = Returned (pd', rd)
      \<and> prod_list (desc_hierarchy pd') = 12
      \<and> prod_list (map unat (desc_hierarchy pd')) = 12
      \<and> length rd = length (desc_hierarchy pd')
      \<and> concat (map2 replicate (spec_run_lengths (spec_merge_flags ?d) 3) rd) = ?d"
    using a small unfolding p12 three by (intro exI [of _ pd'] exI [of _ rd]) simp
  have second: "\<exists>in_pd' in_rd out_pd' out_rd.
      CollaborativeParallelAxesReduce ?in_pd ?out_pd ?in_d ?out_d [] [] =
        Returned ((in_pd', in_rd), (out_pd', out_rd))
      \<and> prod_list (desc_hierarchy in_pd') = 8
      \<and> prod_list (desc_hierarchy out_pd') = 8
      \<and> concat (map2 replicate
            (spec_run_lengths (spec_collaborative_flags ?in_d ?out_d) 3) in_rd) = ?in_d
      \<and> concat (map2 replicate
            (spec_run_lengths (spec_collaborative_flags ?in_d ?out_d) 3) out_rd) = ?out_d"
    using b unfolding p12 three
    by (intro exI [of _ in_pd'] exI [of _ in_rd] exI [of _ out_pd'] exI [of _ out_rd]) simp
  from first second show ?thesis by (rule conjI)
qed

section \<open>The frame of a reduction\<close>

text \<open>
  C10. A reduction changes only the hierarchy of a parallel descriptor: the descriptor that
  \<open>ParallelAxesReduce\<close> returns, and each of the two that \<open>CollaborativeParallelAxesReduce\<close>
  returns, is built from the input's parallel configuration with the hierarchy replaced, so
  the device names and the device tag (the identity of the physical device group) are those
  of the input.
\<close>

theorem reduction_changes_only_the_hierarchy:
  "(ParallelAxesReduce pd d ret0 = Returned (pd', rd) \<longrightarrow>
      parallel_conf pd' = (parallel_conf pd)\<lparr>hierarchy := desc_hierarchy pd'\<rparr>
      \<and> device_name (parallel_conf pd') = device_name (parallel_conf pd)
      \<and> device_tag (parallel_conf pd') = device_tag (parallel_conf pd))
   \<and> (CollaborativeParallelAxesReduce in_pd out_pd in_d out_d in_ret0 out_ret0 =
        Returned ((in_pd', in_rd), (out_pd', out_rd)) \<longrightarrow>
      parallel_conf in_pd' = (parallel_conf in_pd)\<lparr>hierarchy := desc_hierarchy in_pd'\<rparr>
      \<and> device_name (parallel_conf in_pd') = device_name (parallel_conf in_pd)
      \<and> device_tag (parallel_conf in_pd') = device_tag (parallel_conf in_pd)
      \<and> parallel_conf out_pd' = (parallel_conf out_pd)\<lparr>hierarchy := desc_hierarchy out_pd'\<rparr>
      \<and> device_name (parallel_conf out_pd') = device_name (parallel_conf out_pd)
      \<and> device_tag (parallel_conf out_pd') = device_tag (parallel_conf out_pd))"
proof (intro conjI impI)
  assume "ParallelAxesReduce pd d ret0 = Returned (pd', rd)"
  then obtain h' where pd': "pd' = ParallelDesc ((parallel_conf pd)\<lparr>hierarchy := h'\<rparr>)"
    by (auto simp: ParallelAxesReduce_def Let_def split: outcome.splits)
  show "parallel_conf pd' = (parallel_conf pd)\<lparr>hierarchy := desc_hierarchy pd'\<rparr>"
    "device_name (parallel_conf pd') = device_name (parallel_conf pd)"
    "device_tag (parallel_conf pd') = device_tag (parallel_conf pd)"
    by (simp_all add: pd' desc_hierarchy_def)
next
  assume "CollaborativeParallelAxesReduce in_pd out_pd in_d out_d in_ret0 out_ret0 =
        Returned ((in_pd', in_rd), (out_pd', out_rd))"
  then obtain hi' ho' where
    pd': "in_pd' = ParallelDesc ((parallel_conf in_pd)\<lparr>hierarchy := hi'\<rparr>)"
         "out_pd' = ParallelDesc ((parallel_conf out_pd)\<lparr>hierarchy := ho'\<rparr>)"
    by (auto simp: CollaborativeParallelAxesReduce_def Let_def split: outcome.splits if_splits)
  show "parallel_conf in_pd' = (parallel_conf in_pd)\<lparr>hierarchy := desc_hierarchy in_pd'\<rparr>"
    "device_name (parallel_conf in_pd') = device_name (parallel_conf in_pd)"
    "device_tag (parallel_conf in_pd') = device_tag (parallel_conf in_pd)"
    "parallel_conf out_pd' = (parallel_conf out_pd)\<lparr>hierarchy := desc_hierarchy out_pd'\<rparr>"
    "device_name (parallel_conf out_pd') = device_name (parallel_conf out_pd)"
    "device_tag (parallel_conf out_pd') = device_tag (parallel_conf out_pd)"
    by (simp_all add: pd' desc_hierarchy_def)
qed

theorem reduction_changes_only_the_hierarchy_witness:
  "ParallelAxesReduce
     (ParallelDesc \<lparr>device_name = [''0:0-3'', ''1:0-3''], device_tag = ''gpu'', hierarchy = [2, 4]\<rparr>)
     [BroadcastParallel, BroadcastParallel] [] =
   Returned
     (ParallelDesc \<lparr>device_name = [''0:0-3'', ''1:0-3''], device_tag = ''gpu'', hierarchy = [8]\<rparr>,
      [BroadcastParallel])
   \<and> device_name (parallel_conf
        (ParallelDesc \<lparr>device_name = [''0:0-3'', ''1:0-3''], device_tag = ''gpu'', hierarchy = [8]\<rparr>)) =
     device_name (parallel_conf
        (ParallelDesc \<lparr>device_name = [''0:0-3'', ''1:0-3''], device_tag = ''gpu'', hierarchy = [2, 4]\<rparr>))
   \<and> CollaborativeParallelAxesReduce
     (ParallelDesc \<lparr>device_name = [''0:0-3''], device_tag = ''gpu'', hierarchy = [2, 2]\<rparr>)
     (ParallelDesc \<lparr>device_name = [''1:0-3''], device_tag = ''cpu'', hierarchy = [2, 2]\<rparr>)
     [SplitParallel 0, SplitParallel 0] [PartialSumParallel, PartialSumParallel] [] [] =
   Returned
     ((ParallelDesc \<lparr>device_name = [''0:0-3''], device_tag = ''gpu'', hierarchy = [4]\<rparr>,
       [SplitParallel 0]),
      (ParallelDesc \<lparr>device_name = [''1:0-3''], device_tag = ''cpu'', hierarchy = [4]\<rparr>,
       [PartialSumParallel]))
   \<and> device_tag (parallel_conf
        (ParallelDesc \<lparr>device_name = [''1:0-3''], device_tag = ''cpu'', hierarchy = [4]\<rparr>)) =
     device_tag (parallel_conf
        (ParallelDesc \<lparr>device_name = [''1:0-3''], device_tag = ''cpu'', hierarchy = [2, 2]\<rparr>))"
proof -
  have a: "ParallelAxesReduce
     (ParallelDesc \<lparr>device_name = [''0:0-3'', ''1:0-3''], device_tag = ''gpu'', hierarchy = [2, 4]\<rparr>)
     [BroadcastParallel, BroadcastParallel] [] =
   Returned
     (ParallelDesc \<lparr>device_name = [''0:0-3'', ''1:0-3''], device_tag = ''gpu'', hierarchy = [8]\<rparr>,
      [BroadcastParallel])"
    by (simp add: ParallelAxesReduce_eq desc_hierarchy_def spec_reduced_hierarchy_def
        spec_reduced_distribution_def spec_groups_def spec_merge_flags_def)
  have b: "CollaborativeParallelAxesReduce
     (ParallelDesc \<lparr>device_name = [''0:0-3''], device_tag = ''gpu'', hierarchy = [2, 2]\<rparr>)
     (ParallelDesc \<lparr>device_name = [''1:0-3''], device_tag = ''cpu'', hierarchy = [2, 2]\<rparr>)
     [SplitParallel 0, SplitParallel 0] [PartialSumParallel, PartialSumParallel] [] [] =
   Returned
     ((ParallelDesc \<lparr>device_name = [''0:0-3''], device_tag = ''gpu'', hierarchy = [4]\<rparr>,
       [SplitParallel 0]),
      (ParallelDesc \<lparr>device_name = [''1:0-3''], device_tag = ''cpu'', hierarchy = [4]\<rparr>,
       [PartialSumParallel]))"
    by (simp add: CollaborativeParallelAxesReduce_eq desc_hierarchy_def spec_reduced_hierarchy_def
        spec_reduced_distribution_def spec_groups_def spec_collaborative_flags_def)
  note t = reduction_changes_only_the_hierarchy
    [of "ParallelDesc \<lparr>device_name = [''0:0-3'', ''1:0-3''], device_tag = ''gpu'', hierarchy = [2, 4]\<rparr>"
        "[BroadcastParallel, BroadcastParallel]" "[]"
        "ParallelDesc \<lparr>device_name = [''0:0-3'', ''1:0-3''], device_tag = ''gpu'', hierarchy = [8]\<rparr>"
        "[BroadcastParallel]"
        "ParallelDesc \<lparr>device_name = [''0:0-3''], device_tag = ''gpu'', hierarchy = [2, 2]\<rparr>"
        "ParallelDesc \<lparr>device_name = [''1:0-3''], device_tag = ''cpu'', hierarchy = [2, 2]\<rparr>"
        "[SplitParallel 0, SplitParallel 0]" "[PartialSumParallel, PartialSumParallel]" "[]" "[]"
        "ParallelDesc \<lparr>device_name = [''0:0-3''], device_tag = ''gpu'', hierarchy = [4]\<rparr>"
        "[SplitParallel 0]"
        "ParallelDesc \<lparr>device_name = [''1:0-3''], device_tag = ''cpu'', hierarchy = [4]\<rparr>"
        "[PartialSumParallel]"]
  from t a b show ?thesis by blast
qed

section \<open>The choice of the reduction\<close>

text \<open>
  C9. \<open>InOutParallelAxesReduce\<close> returns both descriptor and distribution pairs unchanged when
  both hierarchies have rank 1; it reduces each side independently (the producer side first)
  when the ranks differ; and it reduces collaboratively when the ranks are equal and not
  both 1. The three cases exclude each other and cover every input.
\<close>

theorem InOutParallelAxesReduce_selects_by_rank:
  "(NumAxes (desc_hierarchy in_pd) = 1 \<and> NumAxes (desc_hierarchy out_pd) = 1 \<longrightarrow>
      InOutParallelAxesReduce in_pd out_pd in_d out_d in_ret0 out_ret0 =
        Returned ((in_pd, in_d), (out_pd, out_d)))
   \<and> (NumAxes (desc_hierarchy in_pd) \<noteq> NumAxes (desc_hierarchy out_pd) \<longrightarrow>
      InOutParallelAxesReduce in_pd out_pd in_d out_d in_ret0 out_ret0 =
        (case ParallelAxesReduce in_pd in_d in_ret0 of
           Aborted a \<Rightarrow> Aborted a
         | Returned r_in \<Rightarrow>
            (case ParallelAxesReduce out_pd out_d out_ret0 of
               Aborted a \<Rightarrow> Aborted a
             | Returned r_out \<Rightarrow> Returned (r_in, r_out))))
   \<and> (NumAxes (desc_hierarchy in_pd) = NumAxes (desc_hierarchy out_pd)
        \<and> \<not> (NumAxes (desc_hierarchy in_pd) = 1 \<and> NumAxes (desc_hierarchy out_pd) = 1) \<longrightarrow>
      InOutParallelAxesReduce in_pd out_pd in_d out_d in_ret0 out_ret0 =
        CollaborativeParallelAxesReduce in_pd out_pd in_d out_d in_ret0 out_ret0)"
  by (auto simp: InOutParallelAxesReduce_def Let_def)

theorem InOutParallelAxesReduce_selects_by_rank_witness:
  "InOutParallelAxesReduce
     (ParallelDesc \<lparr>device_name = [''0:0-3''], device_tag = ''gpu'', hierarchy = [4]\<rparr>)
     (ParallelDesc \<lparr>device_name = [''1:0-3''], device_tag = ''gpu'', hierarchy = [4]\<rparr>)
     [SplitParallel 0] [BroadcastParallel] [] [] =
   Returned
     ((ParallelDesc \<lparr>device_name = [''0:0-3''], device_tag = ''gpu'', hierarchy = [4]\<rparr>,
       [SplitParallel 0]),
      (ParallelDesc \<lparr>device_name = [''1:0-3''], device_tag = ''gpu'', hierarchy = [4]\<rparr>,
       [BroadcastParallel]))
   \<and> InOutParallelAxesReduce
     (ParallelDesc \<lparr>device_name = [''0:0-3''], device_tag = ''gpu'', hierarchy = [2, 2]\<rparr>)
     (ParallelDesc \<lparr>device_name = [''1:0-3''], device_tag = ''gpu'', hierarchy = [4]\<rparr>)
     [SplitParallel 0, SplitParallel 0] [BroadcastParallel] [] [] =
   Returned
     ((ParallelDesc \<lparr>device_name = [''0:0-3''], device_tag = ''gpu'', hierarchy = [4]\<rparr>,
       [SplitParallel 0]),
      (ParallelDesc \<lparr>device_name = [''1:0-3''], device_tag = ''gpu'', hierarchy = [4]\<rparr>,
       [BroadcastParallel]))
   \<and> InOutParallelAxesReduce
     (ParallelDesc \<lparr>device_name = [''0:0-3''], device_tag = ''gpu'', hierarchy = [2, 2]\<rparr>)
     (ParallelDesc \<lparr>device_name = [''1:0-3''], device_tag = ''gpu'', hierarchy = [2, 2]\<rparr>)
     [SplitParallel 0, SplitParallel 0] [SplitParallel 0, BroadcastParallel] [] [] =
   Returned
     ((ParallelDesc \<lparr>device_name = [''0:0-3''], device_tag = ''gpu'', hierarchy = [2, 2]\<rparr>,
       [SplitParallel 0, SplitParallel 0]),
      (ParallelDesc \<lparr>device_name = [''1:0-3''], device_tag = ''gpu'', hierarchy = [2, 2]\<rparr>,
       [SplitParallel 0, BroadcastParallel]))"
  using
    InOutParallelAxesReduce_selects_by_rank
      [of "ParallelDesc \<lparr>device_name = [''0:0-3''], device_tag = ''gpu'', hierarchy = [4]\<rparr>"
          "ParallelDesc \<lparr>device_name = [''1:0-3''], device_tag = ''gpu'', hierarchy = [4]\<rparr>"
          "[SplitParallel 0]" "[BroadcastParallel]" "[]" "[]"]
    InOutParallelAxesReduce_selects_by_rank
      [of "ParallelDesc \<lparr>device_name = [''0:0-3''], device_tag = ''gpu'', hierarchy = [2, 2]\<rparr>"
          "ParallelDesc \<lparr>device_name = [''1:0-3''], device_tag = ''gpu'', hierarchy = [4]\<rparr>"
          "[SplitParallel 0, SplitParallel 0]" "[BroadcastParallel]" "[]" "[]"]
    InOutParallelAxesReduce_selects_by_rank
      [of "ParallelDesc \<lparr>device_name = [''0:0-3''], device_tag = ''gpu'', hierarchy = [2, 2]\<rparr>"
          "ParallelDesc \<lparr>device_name = [''1:0-3''], device_tag = ''gpu'', hierarchy = [2, 2]\<rparr>"
          "[SplitParallel 0, SplitParallel 0]" "[SplitParallel 0, BroadcastParallel]" "[]" "[]"]
  by (simp add: NumAxes_def desc_hierarchy_def ParallelAxesReduce_eq
      CollaborativeParallelAxesReduce_eq spec_reduced_hierarchy_def spec_reduced_distribution_def
      spec_groups_def spec_merge_flags_def spec_collaborative_flags_def)

section \<open>The constructor\<close>

text \<open>
  C5. The constructor assembles the chain once, in the order one-to-one, B21, collective
  boxing, slice boxing, naive B2B, naive B2P, each builder once, and the collective boxing
  builder is in the chain if and only if \<open>nccl_use_compute_stream\<close> is false. The flag is
  read at construction only: \<open>Build\<close> on the constructed object is \<open>Build\<close> on the chain that
  the flag fixed at construction, every call it makes to the chain carries that chain, and
  nothing else of the builder object (and no resource description) enters its result.
\<close>

theorem HierarchicalSubTskGphBuilder_ctor_chain:
  fixes resource_desc :: ResourceDesc
    and chain_Build :: "ChainSubTskGphBuilder \<Rightarrow> 'x BuildArgs \<Rightarrow> 's Maybe outcome"
  defines "chain \<equiv> ChainSubTskGphBuilder
        (if nccl_use_compute_stream resource_desc
         then [OneToOneSubTskGphBuilder, B21SubTskGphBuilder, SliceBoxingSubTskGphBuilder,
               NaiveB2BSubTskGphBuilder, NaiveB2PSubTskGphBuilder]
         else [OneToOneSubTskGphBuilder, B21SubTskGphBuilder, CollectiveBoxingSubTskGphBuilder,
               SliceBoxingSubTskGphBuilder, NaiveB2BSubTskGphBuilder, NaiveB2PSubTskGphBuilder])"
  shows "HierarchicalSubTskGphBuilder_ctor resource_desc = \<lparr>sub_tsk_gph_builder_field = chain\<rparr>
   \<and> (CollectiveBoxingSubTskGphBuilder
        \<in> set (builders (sub_tsk_gph_builder_field (HierarchicalSubTskGphBuilder_ctor resource_desc)))
       \<longleftrightarrow> \<not> nccl_use_compute_stream resource_desc)
   \<and> distinct (builders (sub_tsk_gph_builder_field (HierarchicalSubTskGphBuilder_ctor resource_desc)))
   \<and> Build UNIMPLEMENTED chain_Build (HierarchicalSubTskGphBuilder_ctor resource_desc) xs
        in_pd out_pd in_d out_d =
       Build UNIMPLEMENTED chain_Build \<lparr>sub_tsk_gph_builder_field = chain\<rparr> xs
        in_pd out_pd in_d out_d
   \<and> Build UNIMPLEMENTED chain_Build (HierarchicalSubTskGphBuilder_ctor resource_desc) xs
        in_pd out_pd in_d out_d =
       Build UNIMPLEMENTED (\<lambda>any_chain. chain_Build chain) any_builder xs
        in_pd out_pd in_d out_d"
proof (intro conjI)
  show ctor: "HierarchicalSubTskGphBuilder_ctor resource_desc = \<lparr>sub_tsk_gph_builder_field = chain\<rparr>"
    by (simp add: HierarchicalSubTskGphBuilder_ctor_def Let_def chain_def)
  show "CollectiveBoxingSubTskGphBuilder
        \<in> set (builders (sub_tsk_gph_builder_field (HierarchicalSubTskGphBuilder_ctor resource_desc)))
       \<longleftrightarrow> \<not> nccl_use_compute_stream resource_desc"
    by (simp add: ctor) (simp add: chain_def)
  show "distinct (builders (sub_tsk_gph_builder_field (HierarchicalSubTskGphBuilder_ctor resource_desc)))"
    by (simp add: ctor) (simp add: chain_def)
  show "Build UNIMPLEMENTED chain_Build (HierarchicalSubTskGphBuilder_ctor resource_desc) xs
        in_pd out_pd in_d out_d =
       Build UNIMPLEMENTED chain_Build \<lparr>sub_tsk_gph_builder_field = chain\<rparr> xs
        in_pd out_pd in_d out_d"
    by (simp only: ctor)
  show "Build UNIMPLEMENTED chain_Build (HierarchicalSubTskGphBuilder_ctor resource_desc) xs
        in_pd out_pd in_d out_d =
       Build UNIMPLEMENTED (\<lambda>any_chain. chain_Build chain) any_builder xs
        in_pd out_pd in_d out_d"
  proof (cases "InOutParallelAxesReduce in_pd out_pd in_d out_d [] []")
    case (Aborted c)
    then show ?thesis by (simp add: Build_def)
  next
    case (Returned r)
    obtain rin rdin rout rdout where r: "r = ((rin, rdin), (rout, rdout))"
      by (metis surj_pair)
    have call: "Build1dParallelHierarchySubTskGph chain_Build chain xs in_pd out_pd rdin rdout =
        Build1dParallelHierarchySubTskGph (\<lambda>any_chain. chain_Build chain)
          (sub_tsk_gph_builder_field any_builder) xs in_pd out_pd rdin rdout"
      by (simp add: Build1dParallelHierarchySubTskGph_def)
    show ?thesis
      unfolding ctor using Returned call by (simp add: Build_def r)
  qed
qed

theorem HierarchicalSubTskGphBuilder_ctor_chain_witness:
  "builders (sub_tsk_gph_builder_field
     (HierarchicalSubTskGphBuilder_ctor \<lparr>nccl_use_compute_stream = False\<rparr>)) =
     [OneToOneSubTskGphBuilder, B21SubTskGphBuilder, CollectiveBoxingSubTskGphBuilder,
      SliceBoxingSubTskGphBuilder, NaiveB2BSubTskGphBuilder, NaiveB2PSubTskGphBuilder]
   \<and> builders (sub_tsk_gph_builder_field
     (HierarchicalSubTskGphBuilder_ctor \<lparr>nccl_use_compute_stream = True\<rparr>)) =
     [OneToOneSubTskGphBuilder, B21SubTskGphBuilder, SliceBoxingSubTskGphBuilder,
      NaiveB2BSubTskGphBuilder, NaiveB2PSubTskGphBuilder]
   \<and> Build None (\<lambda>chain args. Returned (Inr (builders chain)))
       (HierarchicalSubTskGphBuilder_ctor \<lparr>nccl_use_compute_stream = False\<rparr>) ''lbi''
       (ParallelDesc \<lparr>device_name = [''0:0-3''], device_tag = ''gpu'', hierarchy = [4]\<rparr>)
       (ParallelDesc \<lparr>device_name = [''1:0-3''], device_tag = ''gpu'', hierarchy = [4]\<rparr>)
       [SplitParallel 0] [BroadcastParallel] =
     ([\<lparr>others = ''lbi'',
        arg_in_parallel_desc =
          ParallelDesc \<lparr>device_name = [''0:0-3''], device_tag = ''gpu'', hierarchy = [4]\<rparr>,
        arg_out_parallel_desc =
          ParallelDesc \<lparr>device_name = [''1:0-3''], device_tag = ''gpu'', hierarchy = [4]\<rparr>,
        arg_in_sbp_parallel = SplitParallel 0, arg_out_sbp_parallel = BroadcastParallel\<rparr>],
      Returned (Inr [OneToOneSubTskGphBuilder, B21SubTskGphBuilder,
                     CollectiveBoxingSubTskGphBuilder, SliceBoxingSubTskGphBuilder,
                     NaiveB2BSubTskGphBuilder, NaiveB2PSubTskGphBuilder]))"
proof -
  note f = HierarchicalSubTskGphBuilder_ctor_chain
    [where resource_desc = "\<lparr>nccl_use_compute_stream = False\<rparr>"
       and UNIMPLEMENTED = None
       and chain_Build = "\<lambda>chain args. Returned (Inr (builders chain))"
       and xs = "''lbi''"
       and in_pd = "ParallelDesc \<lparr>device_name = [''0:0-3''], device_tag = ''gpu'', hierarchy = [4]\<rparr>"
       and out_pd = "ParallelDesc \<lparr>device_name = [''1:0-3''], device_tag = ''gpu'', hierarchy = [4]\<rparr>"
       and in_d = "[SplitParallel 0]" and out_d = "[BroadcastParallel]"
       and any_builder = "\<lparr>sub_tsk_gph_builder_field = ChainSubTskGphBuilder []\<rparr>"]
  note t = HierarchicalSubTskGphBuilder_ctor_chain
    [where resource_desc = "\<lparr>nccl_use_compute_stream = True\<rparr>"
       and UNIMPLEMENTED = None
       and chain_Build = "\<lambda>chain args. Returned (Inr (builders chain))"
       and xs = "''lbi''"
       and in_pd = "ParallelDesc \<lparr>device_name = [''0:0-3''], device_tag = ''gpu'', hierarchy = [4]\<rparr>"
       and out_pd = "ParallelDesc \<lparr>device_name = [''1:0-3''], device_tag = ''gpu'', hierarchy = [4]\<rparr>"
       and in_d = "[SplitParallel 0]" and out_d = "[BroadcastParallel]"
       and any_builder = "\<lparr>sub_tsk_gph_builder_field = ChainSubTskGphBuilder []\<rparr>"]
  have a: "builders (sub_tsk_gph_builder_field
     (HierarchicalSubTskGphBuilder_ctor \<lparr>nccl_use_compute_stream = False\<rparr>)) =
     [OneToOneSubTskGphBuilder, B21SubTskGphBuilder, CollectiveBoxingSubTskGphBuilder,
      SliceBoxingSubTskGphBuilder, NaiveB2BSubTskGphBuilder, NaiveB2PSubTskGphBuilder]"
    using f [THEN conjunct1] by simp
  have b: "builders (sub_tsk_gph_builder_field
     (HierarchicalSubTskGphBuilder_ctor \<lparr>nccl_use_compute_stream = True\<rparr>)) =
     [OneToOneSubTskGphBuilder, B21SubTskGphBuilder, SliceBoxingSubTskGphBuilder,
      NaiveB2BSubTskGphBuilder, NaiveB2PSubTskGphBuilder]"
    using t [THEN conjunct1] by simp
  have c: "Build None (\<lambda>chain args. Returned (Inr (builders chain)))
       (HierarchicalSubTskGphBuilder_ctor \<lparr>nccl_use_compute_stream = False\<rparr>) ''lbi''
       (ParallelDesc \<lparr>device_name = [''0:0-3''], device_tag = ''gpu'', hierarchy = [4]\<rparr>)
       (ParallelDesc \<lparr>device_name = [''1:0-3''], device_tag = ''gpu'', hierarchy = [4]\<rparr>)
       [SplitParallel 0] [BroadcastParallel] =
     ([\<lparr>others = ''lbi'',
        arg_in_parallel_desc =
          ParallelDesc \<lparr>device_name = [''0:0-3''], device_tag = ''gpu'', hierarchy = [4]\<rparr>,
        arg_out_parallel_desc =
          ParallelDesc \<lparr>device_name = [''1:0-3''], device_tag = ''gpu'', hierarchy = [4]\<rparr>,
        arg_in_sbp_parallel = SplitParallel 0, arg_out_sbp_parallel = BroadcastParallel\<rparr>],
      Returned (Inr [OneToOneSubTskGphBuilder, B21SubTskGphBuilder,
                     CollectiveBoxingSubTskGphBuilder, SliceBoxingSubTskGphBuilder,
                     NaiveB2BSubTskGphBuilder, NaiveB2PSubTskGphBuilder]))"
    unfolding f [THEN conjunct2, THEN conjunct2, THEN conjunct2, THEN conjunct2]
    by (simp add: Build_def Build1dParallelHierarchySubTskGph_def InOutParallelAxesReduce_def
        NumAxes_def desc_hierarchy_def sbp_parallel_def)
  from a b c show ?thesis by simp
qed

section \<open>Idempotence\<close>

text \<open>
  C8. Reducing a pair that is already reduced returns the same pair. First part: for a
  well-formed pair (neither hierarchy is empty, each distribution has one annotation per
  axis) in which no two adjacent axes can merge under the rule that
  \<open>InOutParallelAxesReduce\<close> applies to it (\<open>spec_already_reduced\<close>). Second part: every pair
  that \<open>InOutParallelAxesReduce\<close> returns is such a pair, so reducing it again returns it
  unchanged. The reduced distributions start empty, as in \<open>Build\<close>.
\<close>

theorem InOutParallelAxesReduce_idempotent:
  "(desc_hierarchy in_pd \<noteq> [] \<and> desc_hierarchy out_pd \<noteq> []
      \<and> length in_d = length (desc_hierarchy in_pd)
      \<and> length out_d = length (desc_hierarchy out_pd)
      \<and> spec_already_reduced (desc_hierarchy in_pd) (desc_hierarchy out_pd) in_d out_d
    \<longrightarrow> InOutParallelAxesReduce in_pd out_pd in_d out_d [] [] =
          Returned ((in_pd, in_d), (out_pd, out_d)))
   \<and> (InOutParallelAxesReduce in_pd out_pd in_d out_d [] [] =
          Returned ((in_pd', in_rd), (out_pd', out_rd))
    \<longrightarrow> InOutParallelAxesReduce in_pd' out_pd' in_rd out_rd [] [] =
          Returned ((in_pd', in_rd), (out_pd', out_rd)))"
proof (intro conjI impI)
  assume "desc_hierarchy in_pd \<noteq> [] \<and> desc_hierarchy out_pd \<noteq> []
      \<and> length in_d = length (desc_hierarchy in_pd)
      \<and> length out_d = length (desc_hierarchy out_pd)
      \<and> spec_already_reduced (desc_hierarchy in_pd) (desc_hierarchy out_pd) in_d out_d"
  then show "InOutParallelAxesReduce in_pd out_pd in_d out_d [] [] =
          Returned ((in_pd, in_d), (out_pd, out_d))"
    by (intro InOutParallelAxesReduce_already_reduced) simp_all
next
  assume red: "InOutParallelAxesReduce in_pd out_pd in_d out_d [] [] =
          Returned ((in_pd', in_rd), (out_pd', out_rd))"
  show "InOutParallelAxesReduce in_pd' out_pd' in_rd out_rd [] [] =
          Returned ((in_pd', in_rd), (out_pd', out_rd))"
  proof (cases "NumAxes (desc_hierarchy in_pd) = 1 \<and> NumAxes (desc_hierarchy out_pd) = 1")
    case True
    then have "in_pd' = in_pd" "out_pd' = out_pd" "in_rd = in_d" "out_rd = out_d"
      using red by (simp_all add: InOutParallelAxesReduce_def Let_def)
    then show ?thesis using True by (simp add: InOutParallelAxesReduce_def Let_def)
  next
    case False
    show ?thesis
      by (rule InOutParallelAxesReduce_already_reduced
          [OF InOutParallelAxesReduce_output_reduced [OF red False]])
  qed
qed

theorem InOutParallelAxesReduce_idempotent_witness:
  "InOutParallelAxesReduce
     (ParallelDesc \<lparr>device_name = [''0:0-3''], device_tag = ''gpu'', hierarchy = [2, 2]\<rparr>)
     (ParallelDesc \<lparr>device_name = [''1:0-3''], device_tag = ''gpu'', hierarchy = [2, 2]\<rparr>)
     [SplitParallel 0, SplitParallel 0] [SplitParallel 0, BroadcastParallel] [] [] =
   Returned
     ((ParallelDesc \<lparr>device_name = [''0:0-3''], device_tag = ''gpu'', hierarchy = [2, 2]\<rparr>,
       [SplitParallel 0, SplitParallel 0]),
      (ParallelDesc \<lparr>device_name = [''1:0-3''], device_tag = ''gpu'', hierarchy = [2, 2]\<rparr>,
       [SplitParallel 0, BroadcastParallel]))
   \<and> InOutParallelAxesReduce
     (ParallelDesc \<lparr>device_name = [''0:0-11''], device_tag = ''gpu'', hierarchy = [2, 2, 3]\<rparr>)
     (ParallelDesc \<lparr>device_name = [''1:0-11''], device_tag = ''gpu'', hierarchy = [12]\<rparr>)
     [SplitParallel 0, SplitParallel 0, BroadcastParallel] [PartialSumParallel] [] [] =
   Returned
     ((ParallelDesc \<lparr>device_name = [''0:0-11''], device_tag = ''gpu'', hierarchy = [4, 3]\<rparr>,
       [SplitParallel 0, BroadcastParallel]),
      (ParallelDesc \<lparr>device_name = [''1:0-11''], device_tag = ''gpu'', hierarchy = [12]\<rparr>,
       [PartialSumParallel]))
   \<and> InOutParallelAxesReduce
     (ParallelDesc \<lparr>device_name = [''0:0-11''], device_tag = ''gpu'', hierarchy = [4, 3]\<rparr>)
     (ParallelDesc \<lparr>device_name = [''1:0-11''], device_tag = ''gpu'', hierarchy = [12]\<rparr>)
     [SplitParallel 0, BroadcastParallel] [PartialSumParallel] [] [] =
   Returned
     ((ParallelDesc \<lparr>device_name = [''0:0-11''], device_tag = ''gpu'', hierarchy = [4, 3]\<rparr>,
       [SplitParallel 0, BroadcastParallel]),
      (ParallelDesc \<lparr>device_name = [''1:0-11''], device_tag = ''gpu'', hierarchy = [12]\<rparr>,
       [PartialSumParallel]))"
proof -
  have first: "InOutParallelAxesReduce
     (ParallelDesc \<lparr>device_name = [''0:0-11''], device_tag = ''gpu'', hierarchy = [2, 2, 3]\<rparr>)
     (ParallelDesc \<lparr>device_name = [''1:0-11''], device_tag = ''gpu'', hierarchy = [12]\<rparr>)
     [SplitParallel 0, SplitParallel 0, BroadcastParallel] [PartialSumParallel] [] [] =
   Returned
     ((ParallelDesc \<lparr>device_name = [''0:0-11''], device_tag = ''gpu'', hierarchy = [4, 3]\<rparr>,
       [SplitParallel 0, BroadcastParallel]),
      (ParallelDesc \<lparr>device_name = [''1:0-11''], device_tag = ''gpu'', hierarchy = [12]\<rparr>,
       [PartialSumParallel]))"
    by (simp add: InOutParallelAxesReduce_def NumAxes_def desc_hierarchy_def
        ParallelAxesReduce_eq spec_reduced_hierarchy_def
        spec_reduced_distribution_def spec_groups_def spec_merge_flags_def)
  have fixed: "InOutParallelAxesReduce
     (ParallelDesc \<lparr>device_name = [''0:0-3''], device_tag = ''gpu'', hierarchy = [2, 2]\<rparr>)
     (ParallelDesc \<lparr>device_name = [''1:0-3''], device_tag = ''gpu'', hierarchy = [2, 2]\<rparr>)
     [SplitParallel 0, SplitParallel 0] [SplitParallel 0, BroadcastParallel] [] [] =
   Returned
     ((ParallelDesc \<lparr>device_name = [''0:0-3''], device_tag = ''gpu'', hierarchy = [2, 2]\<rparr>,
       [SplitParallel 0, SplitParallel 0]),
      (ParallelDesc \<lparr>device_name = [''1:0-3''], device_tag = ''gpu'', hierarchy = [2, 2]\<rparr>,
       [SplitParallel 0, BroadcastParallel]))"
    using InOutParallelAxesReduce_idempotent
      [of "ParallelDesc \<lparr>device_name = [''0:0-3''], device_tag = ''gpu'', hierarchy = [2, 2]\<rparr>"
          "ParallelDesc \<lparr>device_name = [''1:0-3''], device_tag = ''gpu'', hierarchy = [2, 2]\<rparr>"
          "[SplitParallel 0, SplitParallel 0]" "[SplitParallel 0, BroadcastParallel]",
       THEN conjunct1]
    by (simp add: desc_hierarchy_def spec_already_reduced_def spec_collaborative_flags_def)
  have again: "InOutParallelAxesReduce
     (ParallelDesc \<lparr>device_name = [''0:0-11''], device_tag = ''gpu'', hierarchy = [4, 3]\<rparr>)
     (ParallelDesc \<lparr>device_name = [''1:0-11''], device_tag = ''gpu'', hierarchy = [12]\<rparr>)
     [SplitParallel 0, BroadcastParallel] [PartialSumParallel] [] [] =
   Returned
     ((ParallelDesc \<lparr>device_name = [''0:0-11''], device_tag = ''gpu'', hierarchy = [4, 3]\<rparr>,
       [SplitParallel 0, BroadcastParallel]),
      (ParallelDesc \<lparr>device_name = [''1:0-11''], device_tag = ''gpu'', hierarchy = [12]\<rparr>,
       [PartialSumParallel]))"
    by (rule InOutParallelAxesReduce_idempotent [THEN conjunct2, THEN mp, OF first])
  from fixed first again show ?thesis by simp
qed

section \<open>The actor runs its kernels in order\<close>

text \<open>
  C6. \<open>WardKernel\<close> invokes the bindings in the order in which \<open>Init\<close> built them from the
  task's execution sequence: the first binding's entry point runs on the state at the call,
  and the remaining bindings run, in order, on the state it leaves; for a unit with the
  bindings \<open>[A, B]\<close>, A's entry point runs before B's, and B's runs on what A left. Each
  invocation uses \<open>Forward\<close> if the task is a forward task and \<open>Backward\<close> otherwise. The
  function handed to the entry point resolves a blob name of the op by looking up its
  register descriptor id in the binding's map, resolving the id with the caller's resolver,
  asking the kernel for the logical blob name of the blob name, and returning that
  register's blob pointer for the logical blob name.
\<close>

theorem WardKernel_invokes_bindings_in_order:
  fixes K :: "string \<Rightarrow> ('p, 'st) Kernel" and tp :: TaskProto and G :: "64 word \<Rightarrow> 'p Regst"
  defines "entry \<equiv> (if is_forward tp then Forward else Backward)"
  defines "binding \<equiv> (\<lambda>node. \<lparr>kernel = K (op_name node),
                                 bn_in_op2regst_desc_id = node_bn_in_op2regst_desc_id node\<rparr>)"
  shows "exec_kernel_vec_field (Init K tp) = map binding (exec_sequence tp)
   \<and> ward_func_field (Init K tp) = entry
   \<and> (exec_sequence tp = [] \<longrightarrow> WardKernel (Init K tp) G st = Returned st)
   \<and> (exec_sequence tp = A # rest \<longrightarrow>
        WardKernel (Init K tp) G st =
          (case entry (K (op_name A)) (BnInOp2BlobPtr (binding A) G) st of
             Aborted a \<Rightarrow> Aborted a
           | Returned st' \<Rightarrow> WardKernel (Init K (tp\<lparr>exec_sequence := rest\<rparr>)) G st'))
   \<and> (exec_sequence tp = [A, B] \<longrightarrow>
        WardKernel (Init K tp) G st =
          (case entry (K (op_name A)) (BnInOp2BlobPtr (binding A) G) st of
             Aborted a \<Rightarrow> Aborted a
           | Returned st' \<Rightarrow> entry (K (op_name B)) (BnInOp2BlobPtr (binding B) G) st'))
   \<and> BnInOp2BlobPtr ek G bn =
        (case bn_in_op2regst_desc_id ek bn of
           None \<Rightarrow> Aborted OutOfRange
         | Some regst_desc_id \<Rightarrow>
             Returned (GetBlobPtrFromLbn (G regst_desc_id) (GetLbnFromBnInOp (kernel ek) bn)))"
proof (intro conjI impI)
  show "exec_kernel_vec_field (Init K tp) = map binding (exec_sequence tp)"
    by (simp add: Init_def binding_def PbMap2HashMap_def)
  show "ward_func_field (Init K tp) = entry"
    by (simp add: Init_def entry_def)
  show "WardKernel (Init K tp) G st = Returned st" if "exec_sequence tp = []"
    using that by (simp add: Init_def WardKernel_def)
  show "WardKernel (Init K tp) G st =
          (case entry (K (op_name A)) (BnInOp2BlobPtr (binding A) G) st of
             Aborted a \<Rightarrow> Aborted a
           | Returned st' \<Rightarrow> WardKernel (Init K (tp\<lparr>exec_sequence := rest\<rparr>)) G st')"
    if "exec_sequence tp = A # rest"
    using that
    by (simp add: Init_def WardKernel_def entry_def binding_def PbMap2HashMap_def
        split: outcome.splits)
  show "WardKernel (Init K tp) G st =
          (case entry (K (op_name A)) (BnInOp2BlobPtr (binding A) G) st of
             Aborted a \<Rightarrow> Aborted a
           | Returned st' \<Rightarrow> entry (K (op_name B)) (BnInOp2BlobPtr (binding B) G) st')"
    if "exec_sequence tp = [A, B]"
    using that
    by (simp add: Init_def WardKernel_def entry_def binding_def PbMap2HashMap_def
        split: outcome.splits)
  show "BnInOp2BlobPtr ek G bn =
        (case bn_in_op2regst_desc_id ek bn of
           None \<Rightarrow> Aborted OutOfRange
         | Some regst_desc_id \<Rightarrow>
             Returned (GetBlobPtrFromLbn (G regst_desc_id) (GetLbnFromBnInOp (kernel ek) bn)))"
    by (simp add: BnInOp2BlobPtr_def Let_def split: option.splits)
qed

theorem WardKernel_invokes_bindings_in_order_witness:
  "WardKernel
     (Init
        (\<lambda>name.
           \<lparr>Forward = (\<lambda>f st. case f ''out'' of Aborted a \<Rightarrow> Aborted a
                                | Returned p \<Rightarrow> Returned (st @ [(name @ ''.Forward'', p)])),
            Backward = (\<lambda>f st. case f ''out'' of Aborted a \<Rightarrow> Aborted a
                                | Returned p \<Rightarrow> Returned (st @ [(name @ ''.Backward'', p)])),
            GetLbnFromBnInOp = (\<lambda>bn. name @ ''/'' @ bn)\<rparr>)
        \<lparr>task_id = 1, is_forward = True,
         exec_sequence =
           [\<lparr>op_name = ''A'', node_bn_in_op2regst_desc_id = [''out'' \<mapsto> 7]\<rparr>,
            \<lparr>op_name = ''B'', node_bn_in_op2regst_desc_id = [''out'' \<mapsto> 9]\<rparr>]\<rparr>)
     (\<lambda>regst_desc_id. \<lparr>GetBlobPtrFromLbn = (\<lambda>lbn. (regst_desc_id, lbn))\<rparr>)
     [] =
   Returned [(''A.Forward'', (7, ''A/out'')), (''B.Forward'', (9, ''B/out''))]"
  using WardKernel_invokes_bindings_in_order
    [where K = "\<lambda>name.
           \<lparr>Forward = (\<lambda>f st. case f ''out'' of Aborted a \<Rightarrow> Aborted a
                                | Returned p \<Rightarrow> Returned (st @ [(name @ ''.Forward'', p)])),
            Backward = (\<lambda>f st. case f ''out'' of Aborted a \<Rightarrow> Aborted a
                                | Returned p \<Rightarrow> Returned (st @ [(name @ ''.Backward'', p)])),
            GetLbnFromBnInOp = (\<lambda>bn. name @ ''/'' @ bn)\<rparr>"
      and tp = "\<lparr>task_id = 1, is_forward = True,
         exec_sequence =
           [\<lparr>op_name = ''A'', node_bn_in_op2regst_desc_id = [''out'' \<mapsto> 7]\<rparr>,
            \<lparr>op_name = ''B'', node_bn_in_op2regst_desc_id = [''out'' \<mapsto> 9]\<rparr>]\<rparr>"
      and G = "\<lambda>regst_desc_id. \<lparr>GetBlobPtrFromLbn = (\<lambda>lbn. (regst_desc_id, lbn))\<rparr>"
      and st = "[]"
      and A = "\<lparr>op_name = ''A'', node_bn_in_op2regst_desc_id = [''out'' \<mapsto> 7]\<rparr>"
      and B = "\<lparr>op_name = ''B'', node_bn_in_op2regst_desc_id = [''out'' \<mapsto> 9]\<rparr>"
      and rest = "[\<lparr>op_name = ''B'', node_bn_in_op2regst_desc_id = [''out'' \<mapsto> 9]\<rparr>]"
      and ek = "\<lparr>kernel = \<lparr>Forward = (\<lambda>f st. Returned st), Backward = (\<lambda>f st. Returned st),
                              GetLbnFromBnInOp = (\<lambda>bn. bn)\<rparr>,
                 bn_in_op2regst_desc_id = [''out'' \<mapsto> 7]\<rparr>"
      and bn = "''out''",
      THEN conjunct2, THEN conjunct2, THEN conjunct2, THEN conjunct2, THEN conjunct1]
  by (simp add: BnInOp2BlobPtr_def)

section \<open>Build\<close>

lemma Build_unsupported:
  assumes "InOutParallelAxesReduce in_pd out_pd in_d out_d [] [] =
           Returned ((reduced_in_pd, reduced_in_d), (reduced_out_pd, reduced_out_d))"
    and "\<not> (NumAxes (desc_hierarchy reduced_in_pd) = 1
            \<and> NumAxes (desc_hierarchy reduced_out_pd) = 1)"
  shows "Build UNIMPLEMENTED chain_Build self xs in_pd out_pd in_d out_d =
     ([], case UNIMPLEMENTED of
            Some c \<Rightarrow> Aborted c
          | None \<Rightarrow> Returned (Inl BoxingNotSupportedError))"
  using assms by (auto simp: Build_def split: option.splits)

text \<open>
  C1. The specification's own scenario: the hierarchy \<open>[2, 2]\<close> on both sides, the producer
  annotations \<open>[Split(0), Split(0)]\<close>, the consumer annotations \<open>[Split(0), Broadcast]\<close>.
  The collaborative reduction leaves both hierarchies at rank 2, the chain is not called,
  and \<open>Build\<close> runs \<^verbatim>\<open>UNIMPLEMENTED()\<close> before it reaches
  \<^verbatim>\<open>return Error::BoxingNotSupportedError()\<close>: where the macro does not give control back, the
  call does not return the error to its caller.
\<close>

theorem Build_rank_2_reaches_UNIMPLEMENTED:
  "Build UNIMPLEMENTED chain_Build self xs
     (ParallelDesc \<lparr>device_name = [''0:0-3''], device_tag = ''gpu'', hierarchy = [2, 2]\<rparr>)
     (ParallelDesc \<lparr>device_name = [''1:0-3''], device_tag = ''gpu'', hierarchy = [2, 2]\<rparr>)
     [SplitParallel 0, SplitParallel 0] [SplitParallel 0, BroadcastParallel] =
     ([], case UNIMPLEMENTED of
            Some c \<Rightarrow> Aborted c
          | None \<Rightarrow> Returned (Inl BoxingNotSupportedError))
   \<and> Build (Some Unimplemented) chain_Build self xs
     (ParallelDesc \<lparr>device_name = [''0:0-3''], device_tag = ''gpu'', hierarchy = [2, 2]\<rparr>)
     (ParallelDesc \<lparr>device_name = [''1:0-3''], device_tag = ''gpu'', hierarchy = [2, 2]\<rparr>)
     [SplitParallel 0, SplitParallel 0] [SplitParallel 0, BroadcastParallel] =
     ([], Aborted Unimplemented)"
proof -
  have red: "InOutParallelAxesReduce
     (ParallelDesc \<lparr>device_name = [''0:0-3''], device_tag = ''gpu'', hierarchy = [2, 2]\<rparr>)
     (ParallelDesc \<lparr>device_name = [''1:0-3''], device_tag = ''gpu'', hierarchy = [2, 2]\<rparr>)
     [SplitParallel 0, SplitParallel 0] [SplitParallel 0, BroadcastParallel] [] [] =
   Returned
     ((ParallelDesc \<lparr>device_name = [''0:0-3''], device_tag = ''gpu'', hierarchy = [2, 2]\<rparr>,
       [SplitParallel 0, SplitParallel 0]),
      (ParallelDesc \<lparr>device_name = [''1:0-3''], device_tag = ''gpu'', hierarchy = [2, 2]\<rparr>,
       [SplitParallel 0, BroadcastParallel]))"
    by (simp add: InOutParallelAxesReduce_def NumAxes_def desc_hierarchy_def
        CollaborativeParallelAxesReduce_eq spec_reduced_hierarchy_def
        spec_reduced_distribution_def spec_groups_def spec_collaborative_flags_def)
  have "Build U chain_Build self xs
     (ParallelDesc \<lparr>device_name = [''0:0-3''], device_tag = ''gpu'', hierarchy = [2, 2]\<rparr>)
     (ParallelDesc \<lparr>device_name = [''1:0-3''], device_tag = ''gpu'', hierarchy = [2, 2]\<rparr>)
     [SplitParallel 0, SplitParallel 0] [SplitParallel 0, BroadcastParallel] =
     ([], case U of Some c \<Rightarrow> Aborted c | None \<Rightarrow> Returned (Inl BoxingNotSupportedError))"
    for U
    by (rule Build_unsupported [OF red]) (simp add: NumAxes_def desc_hierarchy_def)
  then show ?thesis by simp
qed

text \<open>
  What \<open>Build\<close> does when both reduced hierarchies have rank 1 and neither distribution is
  empty: it calls the chain exactly once and returns what the chain returns. The call
  carries the annotation of axis 0 of each reduced distribution, and the producer and
  consumer descriptors as \<open>Build\<close> received them.
\<close>

lemma Build_delegates_once_with_given_descs:
  assumes "InOutParallelAxesReduce in_pd out_pd in_d out_d [] [] =
           Returned ((reduced_in_pd, reduced_in_d), (reduced_out_pd, reduced_out_d))"
    and "NumAxes (desc_hierarchy reduced_in_pd) = 1"
    and "NumAxes (desc_hierarchy reduced_out_pd) = 1"
    and "in_d \<noteq> []" and "out_d \<noteq> []"
  shows "Build UNIMPLEMENTED chain_Build self xs in_pd out_pd in_d out_d =
     ([\<lparr>others = xs, arg_in_parallel_desc = in_pd, arg_out_parallel_desc = out_pd,
        arg_in_sbp_parallel = reduced_in_d ! 0, arg_out_sbp_parallel = reduced_out_d ! 0\<rparr>],
      chain_Build (sub_tsk_gph_builder_field self)
        \<lparr>others = xs, arg_in_parallel_desc = in_pd, arg_out_parallel_desc = out_pd,
         arg_in_sbp_parallel = reduced_in_d ! 0, arg_out_sbp_parallel = reduced_out_d ! 0\<rparr>)"
proof -
  have "reduced_in_d \<noteq> [] \<and> reduced_out_d \<noteq> []"
    using InOutParallelAxesReduce_Returned_nonempty [OF assms(1) assms(4) assms(5)] .
  then show ?thesis
    using assms(1-3)
    by (simp add: Build_def Build1dParallelHierarchySubTskGph_def sbp_parallel_def Let_def)
qed

lemma Build_delegates_once_with_given_descs_example:
  "Build None (\<lambda>chain args. Returned (Inr (builders chain, arg_in_sbp_parallel args)))
     (HierarchicalSubTskGphBuilder_ctor \<lparr>nccl_use_compute_stream = True\<rparr>) ''lbi''
     (ParallelDesc \<lparr>device_name = [''0:0-3''], device_tag = ''gpu'', hierarchy = [2, 2]\<rparr>)
     (ParallelDesc \<lparr>device_name = [''1:0-3''], device_tag = ''gpu'', hierarchy = [4]\<rparr>)
     [SplitParallel 0, SplitParallel 0] [BroadcastParallel] =
   ([\<lparr>others = ''lbi'',
      arg_in_parallel_desc =
        ParallelDesc \<lparr>device_name = [''0:0-3''], device_tag = ''gpu'', hierarchy = [2, 2]\<rparr>,
      arg_out_parallel_desc =
        ParallelDesc \<lparr>device_name = [''1:0-3''], device_tag = ''gpu'', hierarchy = [4]\<rparr>,
      arg_in_sbp_parallel = SplitParallel 0, arg_out_sbp_parallel = BroadcastParallel\<rparr>],
    Returned (Inr ([OneToOneSubTskGphBuilder, B21SubTskGphBuilder, SliceBoxingSubTskGphBuilder,
                    NaiveB2BSubTskGphBuilder, NaiveB2PSubTskGphBuilder], SplitParallel 0)))"
proof -
  have red: "InOutParallelAxesReduce
     (ParallelDesc \<lparr>device_name = [''0:0-3''], device_tag = ''gpu'', hierarchy = [2, 2]\<rparr>)
     (ParallelDesc \<lparr>device_name = [''1:0-3''], device_tag = ''gpu'', hierarchy = [4]\<rparr>)
     [SplitParallel 0, SplitParallel 0] [BroadcastParallel] [] [] =
   Returned
     ((ParallelDesc \<lparr>device_name = [''0:0-3''], device_tag = ''gpu'', hierarchy = [4]\<rparr>,
       [SplitParallel 0]),
      (ParallelDesc \<lparr>device_name = [''1:0-3''], device_tag = ''gpu'', hierarchy = [4]\<rparr>,
       [BroadcastParallel]))"
    by (simp add: InOutParallelAxesReduce_def NumAxes_def desc_hierarchy_def
        ParallelAxesReduce_eq spec_reduced_hierarchy_def
        spec_reduced_distribution_def spec_groups_def spec_merge_flags_def)
  show ?thesis
    using Build_delegates_once_with_given_descs [OF red, of None
        "\<lambda>chain args. Returned (Inr (builders chain, arg_in_sbp_parallel args))"
        "HierarchicalSubTskGphBuilder_ctor \<lparr>nccl_use_compute_stream = True\<rparr>" "''lbi''"]
    by (simp add: NumAxes_def desc_hierarchy_def HierarchicalSubTskGphBuilder_ctor_def)
qed

text \<open>
  C2. When both reduced hierarchies have rank 1, \<open>Build\<close> is to delegate exactly once to the
  chain, with the reduced placements and the annotation of axis 0 of each reduced
  distribution. It delegates exactly once with those annotations, but with the descriptors
  as it received them. For the hierarchy \<open>[2, 2]\<close> with \<open>[Split(0), Split(0)]\<close> on both sides
  the reduced descriptors, which \<open>Build\<close> computes and whose rank it tests, have the hierarchy
  \<open>[4]\<close>; the one call to the chain carries the descriptors with the hierarchy \<open>[2, 2]\<close>
  beside the rank-1 annotation pair.
\<close>

theorem Build_rank_1_hands_unreduced_descs:
  "InOutParallelAxesReduce
     (ParallelDesc \<lparr>device_name = [''0:0-3''], device_tag = ''gpu'', hierarchy = [2, 2]\<rparr>)
     (ParallelDesc \<lparr>device_name = [''1:0-3''], device_tag = ''gpu'', hierarchy = [2, 2]\<rparr>)
     [SplitParallel 0, SplitParallel 0] [SplitParallel 0, SplitParallel 0] [] [] =
   Returned
     ((ParallelDesc \<lparr>device_name = [''0:0-3''], device_tag = ''gpu'', hierarchy = [4]\<rparr>,
       [SplitParallel 0]),
      (ParallelDesc \<lparr>device_name = [''1:0-3''], device_tag = ''gpu'', hierarchy = [4]\<rparr>,
       [SplitParallel 0]))
   \<and> Build UNIMPLEMENTED chain_Build self xs
       (ParallelDesc \<lparr>device_name = [''0:0-3''], device_tag = ''gpu'', hierarchy = [2, 2]\<rparr>)
       (ParallelDesc \<lparr>device_name = [''1:0-3''], device_tag = ''gpu'', hierarchy = [2, 2]\<rparr>)
       [SplitParallel 0, SplitParallel 0] [SplitParallel 0, SplitParallel 0] =
     ([\<lparr>others = xs,
        arg_in_parallel_desc =
          ParallelDesc \<lparr>device_name = [''0:0-3''], device_tag = ''gpu'', hierarchy = [2, 2]\<rparr>,
        arg_out_parallel_desc =
          ParallelDesc \<lparr>device_name = [''1:0-3''], device_tag = ''gpu'', hierarchy = [2, 2]\<rparr>,
        arg_in_sbp_parallel = SplitParallel 0, arg_out_sbp_parallel = SplitParallel 0\<rparr>],
      chain_Build (sub_tsk_gph_builder_field self)
        \<lparr>others = xs,
         arg_in_parallel_desc =
           ParallelDesc \<lparr>device_name = [''0:0-3''], device_tag = ''gpu'', hierarchy = [2, 2]\<rparr>,
         arg_out_parallel_desc =
           ParallelDesc \<lparr>device_name = [''1:0-3''], device_tag = ''gpu'', hierarchy = [2, 2]\<rparr>,
         arg_in_sbp_parallel = SplitParallel 0, arg_out_sbp_parallel = SplitParallel 0\<rparr>)
   \<and> ParallelDesc \<lparr>device_name = [''0:0-3''], device_tag = ''gpu'', hierarchy = [2, 2]\<rparr> \<noteq>
     ParallelDesc \<lparr>device_name = [''0:0-3''], device_tag = ''gpu'', hierarchy = [4]\<rparr>
   \<and> ParallelDesc \<lparr>device_name = [''1:0-3''], device_tag = ''gpu'', hierarchy = [2, 2]\<rparr> \<noteq>
     ParallelDesc \<lparr>device_name = [''1:0-3''], device_tag = ''gpu'', hierarchy = [4]\<rparr>"
proof -
  have red: "InOutParallelAxesReduce
     (ParallelDesc \<lparr>device_name = [''0:0-3''], device_tag = ''gpu'', hierarchy = [2, 2]\<rparr>)
     (ParallelDesc \<lparr>device_name = [''1:0-3''], device_tag = ''gpu'', hierarchy = [2, 2]\<rparr>)
     [SplitParallel 0, SplitParallel 0] [SplitParallel 0, SplitParallel 0] [] [] =
   Returned
     ((ParallelDesc \<lparr>device_name = [''0:0-3''], device_tag = ''gpu'', hierarchy = [4]\<rparr>,
       [SplitParallel 0]),
      (ParallelDesc \<lparr>device_name = [''1:0-3''], device_tag = ''gpu'', hierarchy = [4]\<rparr>,
       [SplitParallel 0]))"
    by (simp add: InOutParallelAxesReduce_def NumAxes_def desc_hierarchy_def
        CollaborativeParallelAxesReduce_eq spec_reduced_hierarchy_def
        spec_reduced_distribution_def spec_groups_def spec_collaborative_flags_def)
  show ?thesis
    by (simp add: red Build_def Build1dParallelHierarchySubTskGph_def sbp_parallel_def
        NumAxes_def desc_hierarchy_def Let_def)
qed

end
